theory Spec2Isabelle
  imports Complex_Main "HOL-Library.Multiset"
begin

section \<open>Values, arrays and errors\<close>

text \<open>
  The script \<^verbatim>\<open>calcium_imaging.py\<close> is a Python 2 script over numpy arrays of
  float64. A float64 is modelled as a finite value, one of the two infinities, or NaN.
  Finite values are idealised as reals: rounding, overflow and the sign of zero are not
  modelled. The exceptions the script can raise are values of \<open>error\<close>.
\<close>

datatype error = IndexError | ValueError | IOError | UnicodeDecodeError | NameError

datatype npfloat = Fin real | PInf | NInf | NaN

fun np_sub :: "npfloat \<Rightarrow> npfloat \<Rightarrow> npfloat" where
  "np_sub (Fin a) (Fin b) = Fin (a - b)"
| "np_sub NaN _ = NaN"
| "np_sub _ NaN = NaN"
| "np_sub PInf PInf = NaN"
| "np_sub NInf NInf = NaN"
| "np_sub PInf _ = PInf"
| "np_sub NInf _ = NInf"
| "np_sub _ PInf = NInf"
| "np_sub _ NInf = PInf"

text \<open>
  Division of float64 values raises nothing in numpy (it warns only): a finite nonzero
  value over zero is an infinity, zero over zero is NaN.
\<close>

fun np_div :: "npfloat \<Rightarrow> npfloat \<Rightarrow> npfloat" where
  "np_div (Fin a) (Fin b) =
     (if b = 0 then (if a = 0 then NaN else if 0 < a then PInf else NInf)
      else Fin (a / b))"
| "np_div NaN _ = NaN"
| "np_div _ NaN = NaN"
| "np_div PInf (Fin b) = (if 0 \<le> b then PInf else NInf)"
| "np_div NInf (Fin b) = (if 0 \<le> b then NInf else PInf)"
| "np_div (Fin a) _ = Fin 0"
| "np_div _ _ = NaN"

fun np_mul :: "npfloat \<Rightarrow> npfloat \<Rightarrow> npfloat" where
  "np_mul (Fin a) (Fin b) = Fin (a * b)"
| "np_mul NaN _ = NaN"
| "np_mul _ NaN = NaN"
| "np_mul PInf (Fin b) = (if b = 0 then NaN else if 0 < b then PInf else NInf)"
| "np_mul NInf (Fin b) = (if b = 0 then NaN else if 0 < b then NInf else PInf)"
| "np_mul (Fin a) PInf = (if a = 0 then NaN else if 0 < a then PInf else NInf)"
| "np_mul (Fin a) NInf = (if a = 0 then NaN else if 0 < a then NInf else PInf)"
| "np_mul PInf PInf = PInf"
| "np_mul NInf NInf = PInf"
| "np_mul _ _ = NInf"

text \<open>Comparisons with NaN are false.\<close>

fun np_less :: "npfloat \<Rightarrow> npfloat \<Rightarrow> bool" where
  "np_less (Fin a) (Fin b) = (a < b)"
| "np_less NaN _ = False"
| "np_less _ NaN = False"
| "np_less _ NInf = False"
| "np_less PInf _ = False"
| "np_less _ _ = True"

text \<open>
  An array is zero-dimensional (one value, no length) or one-dimensional. A numpy scalar,
  as \<^verbatim>\<open>np.min\<close> returns it, behaves as a zero-dimensional array in arithmetic.
\<close>

datatype ndarray = Arr0 npfloat | Arr1 "npfloat list"

fun arr_values :: "ndarray \<Rightarrow> npfloat list" where
  "arr_values (Arr0 x) = [x]"
| "arr_values (Arr1 xs) = xs"

text \<open>
  \<^verbatim>\<open>np.genfromtxt\<close> on a column of parsed values: the result is squeezed, so a
  column of exactly one value is a zero-dimensional array. A file is modelled by the
  values of the column the script reads (the header already skipped); text that is not
  a number is the value NaN there.
\<close>

definition genfromtxt :: "npfloat list \<Rightarrow> ndarray" where
  "genfromtxt col = (case col of [x] \<Rightarrow> Arr0 x | _ \<Rightarrow> Arr1 col)"

text \<open>
  Elementwise arithmetic with numpy's broadcasting: a zero-dimensional array or an array
  of length one is stretched to the other operand's length; any other mismatch of
  lengths raises ValueError.
\<close>

fun broadcast :: "(npfloat \<Rightarrow> npfloat \<Rightarrow> npfloat) \<Rightarrow> ndarray \<Rightarrow> ndarray \<Rightarrow> error + ndarray" where
  "broadcast f (Arr0 a) (Arr0 b) = Inr (Arr0 (f a b))"
| "broadcast f (Arr0 a) (Arr1 ys) = Inr (Arr1 (map (f a) ys))"
| "broadcast f (Arr1 xs) (Arr0 b) = Inr (Arr1 (map (\<lambda>x. f x b) xs))"
| "broadcast f (Arr1 xs) (Arr1 ys) =
     (if length xs = length ys then Inr (Arr1 (map2 f xs ys))
      else if length xs = 1 then Inr (Arr1 (map (f (hd xs)) ys))
      else if length ys = 1 then Inr (Arr1 (map (\<lambda>x. f x (hd ys)) xs))
      else Inl ValueError)"

definition bind_err :: "error + 'a \<Rightarrow> ('a \<Rightarrow> error + 'b) \<Rightarrow> error + 'b" where
  "bind_err m f = (case m of Inl e \<Rightarrow> Inl e | Inr x \<Rightarrow> f x)"

text \<open>
  \<^verbatim>\<open>np.max\<close> and \<^verbatim>\<open>np.min\<close>: ValueError on an array of no elements; NaN
  as soon as one element is NaN.
\<close>

definition np_max2 :: "npfloat \<Rightarrow> npfloat \<Rightarrow> npfloat" where
  "np_max2 a b = (if a = NaN \<or> b = NaN then NaN else if np_less a b then b else a)"

definition np_min2 :: "npfloat \<Rightarrow> npfloat \<Rightarrow> npfloat" where
  "np_min2 a b = (if a = NaN \<or> b = NaN then NaN else if np_less b a then b else a)"

fun np_max :: "ndarray \<Rightarrow> error + npfloat" where
  "np_max (Arr0 x) = Inr x"
| "np_max (Arr1 []) = Inl ValueError"
| "np_max (Arr1 (x # xs)) = Inr (foldl np_max2 x xs)"

fun np_min :: "ndarray \<Rightarrow> error + npfloat" where
  "np_min (Arr0 x) = Inr x"
| "np_min (Arr1 []) = Inl ValueError"
| "np_min (Arr1 (x # xs)) = Inr (foldl np_min2 x xs)"

text \<open>
  \<^verbatim>\<open>np.savetxt(name, X, delimiter=",")\<close> writes a one-dimensional array one value per
  line and rejects a zero-dimensional one. The result is the written file's values.
\<close>

fun savetxt :: "ndarray \<Rightarrow> error + npfloat list" where
  "savetxt (Arr0 x) = Inl ValueError"
| "savetxt (Arr1 xs) = Inr xs"

section \<open>Normalizer arithmetic\<close>

text \<open>Line 51: \<^verbatim>\<open>dF_F = ((raw-control)/control)\<close>.\<close>

definition dF_F :: "ndarray \<Rightarrow> ndarray \<Rightarrow> error + ndarray" where
  "dF_F raw control = bind_err (broadcast np_sub raw control) (\<lambda>d. broadcast np_div d control)"

section \<open>Baseline loader: rescaling the UV reference\<close>

text \<open>
  Line 37: \<^verbatim>\<open>UVnorm = (UV-np.min(UV))/(np.max(UV)-np.min(UV))\<close>. The operands are
  evaluated left to right; the scalars that \<^verbatim>\<open>np.min\<close> and \<^verbatim>\<open>np.max\<close> return
  are zero-dimensional in the arithmetic.
\<close>

definition UVnorm :: "ndarray \<Rightarrow> error + ndarray" where
  "UVnorm UV =
     bind_err (np_min UV) (\<lambda>mn.
     bind_err (broadcast np_sub UV (Arr0 mn)) (\<lambda>num.
     bind_err (np_max UV) (\<lambda>mx.
     bind_err (np_min UV) (\<lambda>mn'.
     bind_err (broadcast np_sub (Arr0 mx) (Arr0 mn')) (\<lambda>den.
     broadcast np_div num den)))))"

section \<open>Range scanner\<close>

text \<open>
  Lines 57 to 63. The loop reads each discovered csv file and raises the running maximum;
  the test of the minimum (line 62) stands after the loop, at the indentation of the
  \<^verbatim>\<open>for\<close>, so it sees the array of the last iteration only. The variable
  \<^verbatim>\<open>dF_F\<close> is the one the normalizer loop assigned, if it ran (\<open>None\<close>: never
  assigned, reading it is a NameError).
\<close>

fun scan_loop :: "npfloat list list \<Rightarrow> npfloat \<Rightarrow> ndarray option \<Rightarrow> error + (npfloat \<times> ndarray option)" where
  "scan_loop [] maxvalue d = Inr (maxvalue, d)"
| "scan_loop (f # fs) maxvalue d =
     (let a = genfromtxt f in
      bind_err (np_max a) (\<lambda>m.
        scan_loop fs (if np_less maxvalue m then np_mul m (Fin (11 / 10)) else maxvalue) (Some a)))"

definition scan_min :: "npfloat \<Rightarrow> ndarray option \<Rightarrow> error + npfloat" where
  "scan_min minvalue d =
     (case d of
        None \<Rightarrow> Inl NameError
      | Some a \<Rightarrow> bind_err (np_min a) (\<lambda>m. Inr (if np_less m minvalue then m else minvalue)))"

text \<open>
  The whole pass from the seeds of lines 16 and 17 (\<^verbatim>\<open>maxvalue = 0\<close>,
  \<^verbatim>\<open>minvalue = 0\<close>): the result is the pair (maxvalue, minvalue).
\<close>

definition range_scanner :: "npfloat list list \<Rightarrow> ndarray option \<Rightarrow> error + (npfloat \<times> npfloat)" where
  "range_scanner csvs d =
     bind_err (scan_loop csvs (Fin 0) d) (\<lambda>(maxvalue, d').
     bind_err (scan_min (Fin 0) d') (\<lambda>minvalue. Inr (maxvalue, minvalue)))"

section \<open>Python strings\<close>

text \<open>
  File names are Python 2 byte strings. \<open>contains sub s\<close> is \<^verbatim>\<open>sub in s\<close>,
  \<open>py_find s sub\<close> is \<^verbatim>\<open>s.find(sub)\<close> (the lowest index, or -1),
  \<open>py_rfind s sub\<close> is \<^verbatim>\<open>s.rfind(sub)\<close> (the highest index, or -1), and
  \<open>py_slice s a b\<close> is \<^verbatim>\<open>s[a:b]\<close>, where a negative bound counts from the end
  and both bounds are clamped to the string.
\<close>

definition startswith :: "string \<Rightarrow> string \<Rightarrow> bool" where
  "startswith s pre = (take (length pre) s = pre)"

definition endswith :: "string \<Rightarrow> string \<Rightarrow> bool" where
  "endswith s suf = (length suf \<le> length s \<and> drop (length s - length suf) s = suf)"

fun contains :: "string \<Rightarrow> string \<Rightarrow> bool" where
  "contains sub [] = (sub = [])"
| "contains sub (c # cs) = (startswith (c # cs) sub \<or> contains sub cs)"

fun py_find :: "string \<Rightarrow> string \<Rightarrow> int" where
  "py_find [] sub = (if sub = [] then 0 else - 1)"
| "py_find (c # cs) sub =
     (if startswith (c # cs) sub then 0
      else (let r = py_find cs sub in if r < 0 then - 1 else r + 1))"

fun py_rfind :: "string \<Rightarrow> string \<Rightarrow> int" where
  "py_rfind [] sub = (if sub = [] then 0 else - 1)"
| "py_rfind (c # cs) sub =
     (let r = py_rfind cs sub in
      if 0 \<le> r then r + 1 else if startswith (c # cs) sub then 0 else - 1)"

definition py_slice :: "string \<Rightarrow> int \<Rightarrow> int \<Rightarrow> string" where
  "py_slice s a b =
     (let n = int (length s);
          lo = (if a < 0 then max 0 (a + n) else min a n);
          hi = (if b < 0 then max 0 (b + n) else min b n)
      in take (nat (hi - lo)) (drop (nat lo) s))"

text \<open>\<^verbatim>\<open>xs[0]\<close>: IndexError on the empty list.\<close>

definition index0 :: "'a list \<Rightarrow> error + 'a" where
  "index0 xs = (case xs of [] \<Rightarrow> Inl IndexError | x # _ \<Rightarrow> Inr x)"

section \<open>The rate in the file name\<close>

text \<open>
  Line 48 searches the pattern \<^verbatim>\<open>[-+]?\d+[\.]?\d*[eE]?[-+]?\d*\<close>. Every item after
  \<^verbatim>\<open>\d+\<close> may match nothing, so a greedy match never has to give anything back but
  the optional leading sign: a sign that no digit follows starts no match.
  \<open>match_here s\<close> is the text the pattern matches at the start of \<open>s\<close>, if any.
\<close>

definition is_digit :: "char \<Rightarrow> bool" where
  "is_digit c = (c \<in> set ''0123456789'')"

definition is_sign :: "char \<Rightarrow> bool" where
  "is_sign c = (c = CHR ''-'' \<or> c = CHR ''+'')"

definition is_dot :: "char \<Rightarrow> bool" where
  "is_dot c = (c = CHR ''.'')"

definition is_exp :: "char \<Rightarrow> bool" where
  "is_exp c = (c = CHR ''e'' \<or> c = CHR ''E'')"

definition opt_char :: "(char \<Rightarrow> bool) \<Rightarrow> string \<Rightarrow> string \<times> string" where
  "opt_char p s = (case s of [] \<Rightarrow> ([], []) | c # cs \<Rightarrow> if p c then ([c], cs) else ([], s))"

definition digits :: "string \<Rightarrow> string \<times> string" where
  "digits s = (takeWhile is_digit s, dropWhile is_digit s)"

definition match_here :: "string \<Rightarrow> string option" where
  "match_here s =
     (let (sg, s1) = opt_char is_sign s; (d1, s2) = digits s1 in
      if d1 = [] then None
      else
        (let (dot, s3) = opt_char is_dot s2; (d2, s4) = digits s3;
             (e, s5) = opt_char is_exp s4; (sg2, s6) = opt_char is_sign s5;
             (d3, s7) = digits s6
         in Some (sg @ d1 @ dot @ d2 @ e @ sg2 @ d3)))"

text \<open>
  \<^verbatim>\<open>re.findall\<close>: the matches from left to right, without overlap; after a match the
  search goes on behind it.
\<close>

function findall :: "string \<Rightarrow> string list" where
  "findall [] = []"
| "findall (c # cs) =
     (case match_here (c # cs) of
        None \<Rightarrow> findall cs
      | Some m \<Rightarrow> m # findall (drop (length m - 1) cs))"
  by pat_completeness auto
termination
  by (relation "measure length") auto

text \<open>
  \<^verbatim>\<open>float(text)\<close> on a text of signs, digits, a dot and an exponent marker, which is
  all the pattern can match: a decimal literal needs a digit in its mantissa, and an
  exponent needs its marker and at least one digit. The value is exact here.
\<close>

definition digits_val :: "string \<Rightarrow> nat" where
  "digits_val ds = foldl (\<lambda>n c. 10 * n + (of_char c - 48)) 0 ds"

definition py_float :: "string \<Rightarrow> error + real" where
  "py_float s =
     (let (sg, s1) = opt_char is_sign s; (d1, s2) = digits s1;
          (dot, s3) = opt_char is_dot s2; (d2, s4) = digits s3;
          (e, s5) = opt_char is_exp s4; (sg2, s6) = opt_char is_sign s5;
          (d3, s7) = digits s6
      in if s7 \<noteq> [] \<or> (d1 = [] \<and> d2 = []) \<or> (e = [] \<and> sg2 \<noteq> []) \<or> (e \<noteq> [] \<and> d3 = [])
         then Inl ValueError
         else
           (let mant = real (digits_val d1) + real (digits_val d2) / 10 ^ length d2;
                scaled = (if sg2 = ''-'' then mant / 10 ^ digits_val d3 else mant * 10 ^ digits_val d3)
            in Inr (if sg = ''-'' then - scaled else scaled)))"

text \<open>
  Line 48: the text searched is the file name from the first \<^verbatim>\<open>_dt\<close> on; the first
  match is converted.
\<close>

definition rate_text :: "string \<Rightarrow> string" where
  "rate_text source_filename =
     py_slice source_filename (py_find source_filename ''_dt'') (int (length source_filename))"

definition timerate :: "string \<Rightarrow> error + real" where
  "timerate source_filename = bind_err (index0 (findall (rate_text source_filename))) py_float"

text \<open>Line 47: the name of the trace file.\<close>

definition output_filename :: "string \<Rightarrow> string" where
  "output_filename source_filename =
     py_slice source_filename (py_rfind source_filename ''dt_'' + 3) (py_rfind source_filename ''Values'')
       @ ''.csv''"

section \<open>File classifier\<close>

text \<open>
  Lines 20 to 40, on the names of the plain files of the directory in the order
  \<^verbatim>\<open>listdir\<close> gives them. In Python 2, \<^verbatim>\<open>x.encode('UTF8')\<close> on a byte string
  decodes it as ASCII first and raises UnicodeDecodeError on a byte above 127. The
  chained comparison of line 25, \<^verbatim>\<open>s[0:2]=="._" in s\<close>, is the conjunction of
  \<^verbatim>\<open>s[0:2]=="._"\<close> and \<^verbatim>\<open>"._" in s\<close>. The variable \<^verbatim>\<open>cafiles\<close> is assigned
  five times; each value is named by its line.
\<close>

definition is_ascii :: "string \<Rightarrow> bool" where
  "is_ascii s = list_all (\<lambda>c. (of_char c :: nat) < 128) s"

definition convertedfiles :: "string list \<Rightarrow> error + string list" where
  "convertedfiles onlyfiles = (if list_all is_ascii onlyfiles then Inr onlyfiles else Inl UnicodeDecodeError)"

definition convertedfiles2 :: "string list \<Rightarrow> string list" where
  "convertedfiles2 conv = filter (contains ''.txt'') conv"

definition cafiles_23 :: "string list \<Rightarrow> string list" where
  "cafiles_23 conv = filter (contains ''dt_'') (convertedfiles2 conv)"

definition osxbug :: "string list \<Rightarrow> string list" where
  "osxbug conv = filter (\<lambda>s. py_slice s 0 2 = ''._'' \<and> contains ''._'' s) (cafiles_23 conv)"

definition cafiles_26 :: "string list \<Rightarrow> string list" where
  "cafiles_26 conv = filter (\<lambda>filename. filename \<notin> set (osxbug conv)) (cafiles_23 conv)"

definition cafiles_27 :: "string list \<Rightarrow> string list" where
  "cafiles_27 conv = filter (\<lambda>s. \<not> contains ''Normalized_Neuron.'' s) (cafiles_26 conv)"

definition controlfile :: "string list \<Rightarrow> string list" where
  "controlfile conv = filter (contains ''control'') (cafiles_27 conv)"

definition cafiles_32 :: "string list \<Rightarrow> string list" where
  "cafiles_32 conv = filter (\<lambda>s. \<not> contains ''control'' s) (cafiles_27 conv)"

definition UVfile :: "string list \<Rightarrow> string list" where
  "UVfile conv = filter (contains ''UV'') (cafiles_32 conv)"

definition cafiles :: "string list \<Rightarrow> string list" where
  "cafiles conv = filter (\<lambda>s. \<not> contains ''UV'' s) (cafiles_32 conv)"

text \<open>
  The outcome of the classification: the control file and the UV file the script reads
  (\<^verbatim>\<open>controlfile[0]\<close>, \<^verbatim>\<open>UVfile[0]\<close>) and the recordings left to normalize.
\<close>

record classified =
  control_name :: string
  UV_name :: string
  recordings :: "string list"

definition classify :: "string list \<Rightarrow> error + classified" where
  "classify onlyfiles =
     bind_err (convertedfiles onlyfiles) (\<lambda>conv.
     bind_err (index0 (controlfile conv)) (\<lambda>c.
     bind_err (index0 (UVfile conv)) (\<lambda>u.
     Inr \<lparr>control_name = c, UV_name = u, recordings = cafiles conv\<rparr>)))"

text \<open>
  The chain of filters, as one predicate on a name each: what makes a name a candidate,
  the control file, the UV file, a recording.
\<close>

definition is_candidate :: "string \<Rightarrow> bool" where
  "is_candidate s = (contains ''.txt'' s \<and> contains ''dt_'' s \<and> \<not> startswith s ''._''
                      \<and> \<not> contains ''Normalized_Neuron.'' s)"

definition is_control :: "string \<Rightarrow> bool" where
  "is_control s = (is_candidate s \<and> contains ''control'' s)"

definition is_UV :: "string \<Rightarrow> bool" where
  "is_UV s = (is_candidate s \<and> \<not> contains ''control'' s \<and> contains ''UV'' s)"

definition is_recording :: "string \<Rightarrow> bool" where
  "is_recording s = (is_candidate s \<and> \<not> contains ''control'' s \<and> \<not> contains ''UV'' s)"

section \<open>The working directory\<close>

text \<open>
  The script changes into \<^verbatim>\<open>mypath\<close> and reads and writes there. A directory holds
  its plain files, each name with the values of the file (see \<open>genfromtxt\<close>), in the
  order \<^verbatim>\<open>listdir\<close> gives them, and its subdirectories. Links and permissions are not
  modelled.
\<close>

datatype dir = Dir (plain_files: "(string \<times> npfloat list) list") (subdirs: "(string \<times> dir) list")

text \<open>Reading a file of the working directory by its name: IOError when there is none.\<close>

definition read_file :: "dir \<Rightarrow> string \<Rightarrow> error + npfloat list" where
  "read_file d name = (case map_of (plain_files d) name of None \<Rightarrow> Inl IOError | Some col \<Rightarrow> Inr col)"

text \<open>
  Writing a file of the working directory: an existing file is replaced where it stands, a
  new one is listed last; IOError when the name is a subdirectory's.
\<close>

fun put_file :: "string \<Rightarrow> npfloat list \<Rightarrow> (string \<times> npfloat list) list \<Rightarrow> (string \<times> npfloat list) list" where
  "put_file name col [] = [(name, col)]"
| "put_file name col ((n, c) # rest) =
     (if n = name then (name, col) # rest else (n, c) # put_file name col rest)"

definition write_file :: "dir \<Rightarrow> string \<Rightarrow> npfloat list \<Rightarrow> error + dir" where
  "write_file d name col =
     (if name \<in> set (map fst (subdirs d)) then Inl IOError
      else Inr (Dir (put_file name col (plain_files d)) (subdirs d)))"

text \<open>\<^verbatim>\<open>os.path.join(a, b)\<close> for two components.\<close>

definition path_join :: "string \<Rightarrow> string \<Rightarrow> string" where
  "path_join a b =
     (if startswith b ''/'' then b
      else if a = [] \<or> endswith a ''/'' then a @ b
      else a @ ''/'' @ b)"

text \<open>
  \<^verbatim>\<open>os.walk(top)\<close>, top down: the directory itself with its plain files, then each
  subdirectory in turn. The list of subdirectory names it also yields is not used by the
  script and left out.
\<close>

fun walk :: "string \<Rightarrow> dir \<Rightarrow> (string \<times> (string \<times> npfloat list) list) list"
  and walk_subdirs :: "string \<Rightarrow> (string \<times> dir) list \<Rightarrow> (string \<times> (string \<times> npfloat list) list) list" where
  "walk dirpath (Dir fs ds) = (dirpath, fs) # walk_subdirs dirpath ds"
| "walk_subdirs dirpath [] = []"
| "walk_subdirs dirpath ((name, sub) # ds) = walk (path_join dirpath name) sub @ walk_subdirs dirpath ds"

text \<open>
  Line 56: the paths of all files below \<^verbatim>\<open>mypath\<close> whose name ends in \<^verbatim>\<open>.csv\<close>,
  here each with the values that reading this path gives.
\<close>

definition csvz :: "string \<Rightarrow> dir \<Rightarrow> (string \<times> npfloat list) list" where
  "csvz mypath d =
     concat (map (\<lambda>(dirpath, fs).
                    map (\<lambda>(name, col). (path_join dirpath name, col))
                        (filter (\<lambda>(name, col). endswith name ''.csv'') fs))
                 (walk mypath d))"

section \<open>Normalizer loop\<close>

text \<open>
  Lines 45 to 53, for one recording: the name of the trace, the rate (computed and never
  used again), the signal column, the normalization, the write. The result is the
  directory after the write and the array left in the variable \<^verbatim>\<open>dF_F\<close>.
\<close>

definition normalize_one :: "ndarray \<Rightarrow> dir \<Rightarrow> string \<Rightarrow> error + (dir \<times> ndarray)" where
  "normalize_one control d source_filename =
     bind_err (timerate source_filename) (\<lambda>rate.
     bind_err (read_file d source_filename) (\<lambda>col.
     bind_err (dF_F (genfromtxt col) control) (\<lambda>a.
     bind_err (savetxt a) (\<lambda>vals.
     bind_err (write_file d (output_filename source_filename) vals) (\<lambda>d'.
     Inr (d', a))))))"

fun normalizer :: "ndarray \<Rightarrow> string list \<Rightarrow> dir \<Rightarrow> ndarray option \<Rightarrow> error + (dir \<times> ndarray option)" where
  "normalizer control [] d prev = Inr (d, prev)"
| "normalizer control (source_filename # rest) d prev =
     bind_err (normalize_one control d source_filename) (\<lambda>(d', a).
       normalizer control rest d' (Some a))"

section \<open>Plotter\<close>

text \<open>
  Lines 66 to 109 (the listing keeps the continuation prompts of the interactive
  session it was copied from; the statements behind them are what is modelled). The
  function reads the file named by the last component of the path
  it is given, relative to the working directory, and saves the image under that name
  with its last four characters replaced by \<^verbatim>\<open>.png\<close>. After the file is read,
  \<^verbatim>\<open>plt.ylim([minvalue,maxvalue])\<close> (line 77) raises ValueError when a limit is NaN
  or an infinity, and then \<^verbatim>\<open>dF_F.shape[0]\<close> (line 78) raises IndexError on a
  zero-dimensional array. Of the drawing, the model keeps the title, the limits of the
  axes, the height of the scale bars and the name of the image; the other calls of the
  plotting library are taken to succeed (values of the trace that are not finite leave
  gaps in the line), and the images are kept apart from the directory.
\<close>

definition is_finite :: "npfloat \<Rightarrow> bool" where
  "is_finite v = (case v of Fin r \<Rightarrow> True | _ \<Rightarrow> False)"

record plot =
  title :: string
  ylim :: "npfloat \<times> npfloat"
  xlim :: "nat \<times> nat"
  y_range_high :: npfloat
  image_name :: string

definition drawer :: "dir \<Rightarrow> npfloat \<Rightarrow> string \<Rightarrow> npfloat \<Rightarrow> error + plot" where
  "drawer d minvalue files maxvalue =
     (let output_imagename = py_slice files (py_rfind files ''/'' + 1) (int (length files)) in
      bind_err (read_file d output_imagename) (\<lambda>col.
        if is_finite minvalue \<and> is_finite maxvalue then
          (case genfromtxt col of
             Arr0 x \<Rightarrow> Inl IndexError
           | Arr1 xs \<Rightarrow>
               Inr \<lparr>title = output_imagename,
                    ylim = (minvalue, maxvalue),
                    xlim = (0, length xs),
                    y_range_high = np_sub maxvalue (Fin 1),
                    image_name = py_slice output_imagename 0 (- 4) @ ''.png''\<rparr>)
        else Inl ValueError))"

text \<open>Lines 112 and 113: one call for each path of \<^verbatim>\<open>csvz\<close>.\<close>

fun drawer_loop :: "dir \<Rightarrow> npfloat \<Rightarrow> npfloat \<Rightarrow> string list \<Rightarrow> error + plot list" where
  "drawer_loop d minvalue maxvalue [] = Inr []"
| "drawer_loop d minvalue maxvalue (files # rest) =
     bind_err (drawer d minvalue files maxvalue) (\<lambda>p.
     bind_err (drawer_loop d minvalue maxvalue rest) (\<lambda>ps. Inr (p # ps)))"

section \<open>The script\<close>

text \<open>
  The statements of the script in their order; the first error ends the run. The result
  holds the directory after the normalizer, the paths found by line 56, the batch range
  and the plots.
\<close>

record outcome =
  final_dir :: dir
  csv_paths :: "string list"
  maxvalue :: npfloat
  minvalue :: npfloat
  plots :: "plot list"

definition scan_and_plot :: "string \<Rightarrow> dir \<Rightarrow> ndarray option \<Rightarrow> error + outcome" where
  "scan_and_plot mypath d prev =
     (let cs = csvz mypath d in
      bind_err (range_scanner (map snd cs) prev) (\<lambda>(mx, mn).
      bind_err (drawer_loop d mn mx (map fst cs)) (\<lambda>ps.
      Inr \<lparr>final_dir = d, csv_paths = map fst cs, maxvalue = mx, minvalue = mn, plots = ps\<rparr>)))"

definition script :: "string \<Rightarrow> dir \<Rightarrow> error + outcome" where
  "script mypath d =
     bind_err (convertedfiles (map fst (plain_files d))) (\<lambda>conv.
     bind_err (index0 (controlfile conv)) (\<lambda>cname.
     bind_err (read_file d cname) (\<lambda>ccol.
     bind_err (index0 (UVfile conv)) (\<lambda>uname.
     bind_err (read_file d uname) (\<lambda>ucol.
     bind_err (UVnorm (genfromtxt ucol)) (\<lambda>uvn.
     bind_err (savetxt uvn) (\<lambda>vals.
     bind_err (write_file d ''UV.csv'' vals) (\<lambda>d1.
     bind_err (normalizer (genfromtxt ccol) (cafiles conv) d1 None) (\<lambda>(d2, prev).
     scan_and_plot mypath d2 prev)))))))))"

text \<open>
  The values the running maximum can take: a finite value that is not negative, or plus
  infinity (an invariant of the scanner's loop, used in the proofs).
\<close>

definition good_max :: "npfloat \<Rightarrow> bool" where
  "good_max v = (case v of Fin r \<Rightarrow> 0 \<le> r | PInf \<Rightarrow> True | _ \<Rightarrow> False)"

section \<open>Properties of the normalizer arithmetic\<close>

lemma map2_sub_Fin:
  "length R = length C \<Longrightarrow>
   map2 np_sub (map Fin R) (map Fin C) = map2 (\<lambda>r c. Fin (r - c)) R C"
  by (induction R C rule: list_induct2) simp_all

lemma map2_div_Fin:
  "length R = length C \<Longrightarrow> \<forall>c\<in>set C. c \<noteq> 0 \<Longrightarrow>
   map2 np_div (map2 (\<lambda>r c. Fin (r - c)) R C) (map Fin C) = map2 (\<lambda>r c. Fin ((r - c) / c)) R C"
  by (induction R C rule: list_induct2) simp_all

lemma genfromtxt_two: "2 \<le> length col \<Longrightarrow> genfromtxt col = Arr1 col"
  by (cases col; cases "tl col") (simp_all add: genfromtxt_def)

lemma genfromtxt_values: "arr_values (genfromtxt col) = col"
  by (cases col; cases "tl col") (auto simp: genfromtxt_def split: list.splits)

text \<open>
  Claim C1. For a recording \<open>R\<close> and a control baseline \<open>C\<close> of the same length with
  every control value nonzero, the normalizer computes an array whose value at each index
  is \<open>(R[i] - C[i]) / C[i]\<close>, and as many values as the recording has; with two or
  more samples this array is what is written (an array of one sample is
  zero-dimensional, and \<^verbatim>\<open>np.savetxt\<close> rejects it). With control \<open>[1,1,1,1]\<close> and
  recording \<open>[2,1,0,1]\<close> the array is \<open>[1,0,-1,0]\<close>, and this is what is written.
\<close>

theorem C1_dF_F_elementwise:
  "(length R = length C \<and> 0 \<notin> set C \<longrightarrow>
      (\<exists>a. dF_F (genfromtxt (map Fin R)) (genfromtxt (map Fin C)) = Inr a
           \<and> arr_values a = map2 (\<lambda>r c. Fin ((r - c) / c)) R C
           \<and> (\<forall>i<length R. arr_values a ! i = Fin ((R ! i - C ! i) / C ! i))
           \<and> (2 \<le> length R \<longrightarrow> savetxt a = Inr (map2 (\<lambda>r c. Fin ((r - c) / c)) R C))))
   \<and> bind_err (dF_F (genfromtxt (map Fin [2, 1, 0, 1])) (genfromtxt (map Fin [1, 1, 1, 1]))) savetxt
       = Inr [Fin 1, Fin 0, Fin (- 1), Fin 0]"
proof (intro conjI impI)
  assume h: "length R = length C \<and> 0 \<notin> set C"
  then have len: "length R = length C" and nz: "\<forall>c\<in>set C. c \<noteq> 0" by auto
  let ?out = "map2 (\<lambda>r c. Fin ((r - c) / c)) R C"
  have idx: "\<forall>i<length R. ?out ! i = Fin ((R ! i - C ! i) / C ! i)"
    using len by simp
  show "\<exists>a. dF_F (genfromtxt (map Fin R)) (genfromtxt (map Fin C)) = Inr a
           \<and> arr_values a = ?out
           \<and> (\<forall>i<length R. arr_values a ! i = Fin ((R ! i - C ! i) / C ! i))
           \<and> (2 \<le> length R \<longrightarrow> savetxt a = Inr ?out)"
  proof (cases "length R = 1")
    case True
    then obtain r where R: "R = [r]" by (cases R) auto
    from True len obtain c where C: "C = [c]" by (cases C) auto
    from nz C have "c \<noteq> 0" by simp
    then show ?thesis
      by (simp add: R C dF_F_def genfromtxt_def bind_err_def)
  next
    case False
    have gR: "genfromtxt (map Fin R) = Arr1 (map Fin R)"
      using False by (cases R; cases "tl R") (auto simp: genfromtxt_def split: list.splits)
    have gC: "genfromtxt (map Fin C) = Arr1 (map Fin C)"
      using False len by (cases C; cases "tl C") (auto simp: genfromtxt_def split: list.splits)
    have "dF_F (Arr1 (map Fin R)) (Arr1 (map Fin C)) = Inr (Arr1 ?out)"
      using len nz by (simp add: dF_F_def bind_err_def map2_sub_Fin map2_div_Fin)
    with idx show ?thesis by (simp add: gR gC)
  qed
next
  show "bind_err (dF_F (genfromtxt (map Fin [2, 1, 0, 1])) (genfromtxt (map Fin [1, 1, 1, 1]))) savetxt
       = Inr [Fin 1, Fin 0, Fin (- 1), Fin 0]"
    by (simp add: dF_F_def genfromtxt_def bind_err_def)
qed

theorem C1_dF_F_elementwise_witness:
  "length [3, 5 :: real] = length [2, 4 :: real] \<and> 0 \<notin> set [2, 4 :: real]
   \<and> (\<exists>a. dF_F (genfromtxt (map Fin [3, 5])) (genfromtxt (map Fin [2, 4])) = Inr a
         \<and> arr_values a = [Fin (1 / 2), Fin (1 / 4)])"
  using C1_dF_F_elementwise [of "[3, 5]" "[2, 4]"]
  by (auto simp: genfromtxt_def)

text \<open>
  Claim C9 says that the written trace always has the length of the recording. A
  recording of one sample is read as a zero-dimensional array and broadcast against the
  control: with a control of two samples the written trace has two values.
\<close>

theorem C9_trace_length_counterexample:
  "\<not> (\<forall>raw control out.
        bind_err (dF_F (genfromtxt raw) (genfromtxt control)) savetxt = Inr out
        \<longrightarrow> length out = length raw)"
proof
  assume h: "\<forall>raw control out.
        bind_err (dF_F (genfromtxt raw) (genfromtxt control)) savetxt = Inr out
        \<longrightarrow> length out = length raw"
  have "bind_err (dF_F (genfromtxt [Fin 2]) (genfromtxt [Fin 1, Fin 1])) savetxt = Inr [Fin 1, Fin 1]"
    by (simp add: dF_F_def genfromtxt_def bind_err_def)
  with h have "length [Fin 1, Fin 1] = length [Fin 2]" by blast
  then show False by simp
qed

lemma genfromtxt_cases:
  "(length col = 1 \<and> genfromtxt col = Arr0 (hd col)) \<or> (length col \<noteq> 1 \<and> genfromtxt col = Arr1 col)"
  by (cases col; cases "tl col") (auto simp: genfromtxt_def)

text \<open>
  Claim C9, as the script behaves: whenever a trace is written, it has the length of the
  recording's signal sequence, unless the recording has exactly one sample; then it has
  the length of the control sequence.
\<close>

theorem C9_trace_length:
  assumes "bind_err (dF_F (genfromtxt raw) (genfromtxt control)) savetxt = Inr out"
  shows "(length raw \<noteq> 1 \<longrightarrow> length out = length raw)
         \<and> (length raw = 1 \<longrightarrow> length out = length control)"
  using assms genfromtxt_cases [of raw] genfromtxt_cases [of control]
  by (auto simp: dF_F_def bind_err_def split: if_splits)

theorem C9_trace_length_witness:
  "bind_err (dF_F (genfromtxt [Fin 2, Fin 4]) (genfromtxt [Fin 1, Fin 2])) savetxt = Inr [Fin 1, Fin 1]
   \<and> length [Fin 1, Fin 1] = length [Fin 2, Fin 4]"
  using C9_trace_length [of "[Fin 2, Fin 4]" "[Fin 1, Fin 2]" "[Fin 1, Fin 1]"]
  by (simp add: dF_F_def genfromtxt_def bind_err_def)

section \<open>Properties of the UV rescaling\<close>

lemma foldl_max_Fin: "foldl np_max2 (Fin a) (map Fin xs) = Fin (foldl max a xs)"
  by (induction xs arbitrary: a) (auto simp: np_max2_def max_def)

lemma foldl_min_Fin: "foldl np_min2 (Fin a) (map Fin xs) = Fin (foldl min a xs)"
  by (induction xs arbitrary: a) (auto simp: np_min2_def min_def)

lemma foldl_max_Max: "foldl max (a::real) xs = Max (set (a # xs))"
proof (induction xs arbitrary: a)
  case Nil
  then show ?case by simp
next
  case (Cons x xs)
  have "Max (set (max a x # xs)) = Max (set (a # x # xs))"
    by (cases "xs = []") (simp_all add: max.assoc)
  with Cons show ?case by simp
qed

lemma foldl_min_Min: "foldl min (a::real) xs = Min (set (a # xs))"
proof (induction xs arbitrary: a)
  case Nil
  then show ?case by simp
next
  case (Cons x xs)
  have "Min (set (min a x # xs)) = Min (set (a # x # xs))"
    by (cases "xs = []") (simp_all add: min.assoc)
  with Cons show ?case by simp
qed

lemma np_max_Fin: "xs \<noteq> [] \<Longrightarrow> np_max (Arr1 (map Fin xs)) = Inr (Fin (Max (set xs)))"
  by (cases xs) (simp_all add: foldl_max_Fin foldl_max_Max del: set_simps)

lemma np_min_Fin: "xs \<noteq> [] \<Longrightarrow> np_min (Arr1 (map Fin xs)) = Inr (Fin (Min (set xs)))"
  by (cases xs) (simp_all add: foldl_min_Fin foldl_min_Min del: set_simps)

lemma Min_neq_Max_len: "xs \<noteq> [] \<Longrightarrow> Min (set xs) \<noteq> Max (set (xs::real list)) \<Longrightarrow> 2 \<le> length xs"
  by (cases xs; cases "tl xs") auto

lemma UVnorm_Fin:
  assumes ne: "UV \<noteq> []" and d: "Min (set UV) \<noteq> Max (set UV)"
  shows "UVnorm (genfromtxt (map Fin UV))
         = Inr (Arr1 (map (\<lambda>x. Fin ((x - Min (set UV)) / (Max (set UV) - Min (set UV)))) UV))"
proof -
  have len: "2 \<le> length UV" using Min_neq_Max_len [OF ne d] .
  then have g: "genfromtxt (map Fin UV) = Arr1 (map Fin UV)"
    by (simp add: genfromtxt_two)
  have nz: "Max (set UV) - Min (set UV) \<noteq> 0" using d by simp
  show ?thesis
    using nz by (simp add: g UVnorm_def bind_err_def np_min_Fin np_max_Fin ne comp_def)
qed

lemma UVnorm_range:
  assumes ne: "(UV::real list) \<noteq> []" and d: "Min (set UV) \<noteq> Max (set UV)"
  defines "g \<equiv> (\<lambda>x. (x - Min (set UV)) / (Max (set UV) - Min (set UV)))"
  shows "Min (set (map g UV)) = 0" and "Max (set (map g UV)) = 1"
proof -
  have fin: "finite (set UV)" and ne': "set UV \<noteq> {}" using ne by simp_all
  have "Min (set UV) \<le> Max (set UV)" using fin ne' by simp
  with d have pos: "0 < Max (set UV) - Min (set UV)" by linarith
  have mono: "mono g"
    unfolding g_def using pos by (intro monoI) (simp add: divide_right_mono)
  have "Min (g ` set UV) = g (Min (set UV))"
    using mono_Min_commute [OF mono fin ne'] by simp
  then show "Min (set (map g UV)) = 0" by (simp add: g_def)
  have "Max (g ` set UV) = g (Max (set UV))"
    using mono_Max_commute [OF mono fin ne'] by simp
  then show "Max (set (map g UV)) = 1" using pos by (simp add: g_def)
qed


text \<open>
  Claim C5. For every UV sequence whose minimum and maximum differ, the rescaling of line
  37 succeeds, maps each value \<open>x\<close> linearly to \<open>(x - min) / (max - min)\<close>, and the
  output has minimum 0 and maximum 1. The UV input \<open>[0,5,10]\<close> gives \<open>[0, 0.5, 1]\<close>.
\<close>

theorem C5_UVnorm_minmax:
  "(UV \<noteq> [] \<and> Min (set UV) \<noteq> Max (set UV) \<longrightarrow>
      (\<exists>out. UVnorm (genfromtxt (map Fin UV)) = Inr (Arr1 (map Fin out))
         \<and> out = map (\<lambda>x. (x - Min (set UV)) / (Max (set UV) - Min (set UV))) UV
         \<and> np_min (Arr1 (map Fin out)) = Inr (Fin 0)
         \<and> np_max (Arr1 (map Fin out)) = Inr (Fin 1)))
   \<and> UVnorm (genfromtxt (map Fin [0, 5, 10])) = Inr (Arr1 [Fin 0, Fin (1 / 2), Fin 1])"
proof (intro conjI impI)
  assume "UV \<noteq> [] \<and> Min (set UV) \<noteq> Max (set UV)"
  then have ne: "UV \<noteq> []" and d: "Min (set UV) \<noteq> Max (set UV)" by simp_all
  let ?g = "\<lambda>x. (x - Min (set UV)) / (Max (set UV) - Min (set UV))"
  have ne': "map ?g UV \<noteq> []" using ne by simp
  have "UVnorm (genfromtxt (map Fin UV)) = Inr (Arr1 (map Fin (map ?g UV)))"
    using UVnorm_Fin [OF ne d] by (simp add: comp_def)
  moreover have "np_min (Arr1 (map Fin (map ?g UV))) = Inr (Fin 0)"
    using np_min_Fin [OF ne'] UVnorm_range(1) [OF ne d] by simp
  moreover have "np_max (Arr1 (map Fin (map ?g UV))) = Inr (Fin 1)"
    using np_max_Fin [OF ne'] UVnorm_range(2) [OF ne d] by simp
  ultimately show "\<exists>out. UVnorm (genfromtxt (map Fin UV)) = Inr (Arr1 (map Fin out))
         \<and> out = map ?g UV
         \<and> np_min (Arr1 (map Fin out)) = Inr (Fin 0)
         \<and> np_max (Arr1 (map Fin out)) = Inr (Fin 1)"
    by blast
next
  show "UVnorm (genfromtxt (map Fin [0, 5, 10])) = Inr (Arr1 [Fin 0, Fin (1 / 2), Fin 1])"
    by (simp add: UVnorm_def genfromtxt_def bind_err_def np_min2_def np_max2_def)
qed

theorem C5_UVnorm_minmax_witness:
  "[1, 3, 2 :: real] \<noteq> [] \<and> Min (set [1, 3, 2 :: real]) \<noteq> Max (set [1, 3, 2 :: real])
   \<and> UVnorm (genfromtxt (map Fin [1, 3, 2])) = Inr (Arr1 [Fin 0, Fin 1, Fin (1 / 2)])"
  using C5_UVnorm_minmax [of "[1, 3, 2]"] by simp

text \<open>
  Claim C6 says that rescaling a constant UV sequence raises a division-by-zero error.
  The script divides numpy arrays, which raises nothing: on the constant sequence
  \<open>[3,3]\<close> the result is the array \<open>[NaN, NaN]\<close> and no error.
\<close>

theorem C6_constant_UV_counterexample:
  "UVnorm (genfromtxt [Fin 3, Fin 3]) = Inr (Arr1 [NaN, NaN])
   \<and> \<not> (\<exists>e. UVnorm (genfromtxt [Fin 3, Fin 3]) = Inl e)"
  by (simp add: UVnorm_def genfromtxt_def bind_err_def np_min2_def np_max2_def)

lemma const_all_Min:
  assumes "(UV::real list) \<noteq> []" and "Min (set UV) = Max (set UV)" and "x \<in> set UV"
  shows "x = Min (set UV)"
proof -
  have "Min (set UV) \<le> x" using assms(3) by (intro Min_le) simp_all
  moreover have "x \<le> Max (set UV)" using assms(3) by (intro Max_ge) simp_all
  ultimately show ?thesis using assms(2) by simp
qed

text \<open>
  Claim C6, as the script behaves: rescaling a constant UV sequence of two or more
  samples raises no error; every value of the result is NaN (zero over zero), and that
  sequence is what \<^verbatim>\<open>np.savetxt\<close> writes to \<^verbatim>\<open>UV.csv\<close>.
\<close>

theorem C6_constant_UV_nan:
  assumes "2 \<le> length UV" and "Min (set UV) = Max (set UV)"
  shows "UVnorm (genfromtxt (map Fin UV)) = Inr (Arr1 (replicate (length UV) NaN))
         \<and> bind_err (UVnorm (genfromtxt (map Fin UV))) savetxt = Inr (replicate (length UV) NaN)"
proof -
  have ne: "UV \<noteq> []" using assms(1) by auto
  have g: "genfromtxt (map Fin UV) = Arr1 (map Fin UV)"
    using assms(1) by (simp add: genfromtxt_two)
  have all: "\<forall>x\<in>set UV. x = Min (set UV)"
    using const_all_Min [OF ne assms(2)] by blast
  then have "map (\<lambda>x. np_div (np_sub (Fin x) (Fin (Min (set UV)))) (Fin 0)) UV = replicate (length UV) NaN"
    by (simp add: map_replicate_const [symmetric] cong: map_cong)
  then have "UVnorm (Arr1 (map Fin UV)) = Inr (Arr1 (replicate (length UV) NaN))"
    using assms(2) by (simp add: UVnorm_def bind_err_def np_min_Fin np_max_Fin ne comp_def)
  then show ?thesis by (simp add: g bind_err_def)
qed

theorem C6_constant_UV_nan_witness:
  "2 \<le> length [7, 7, 7 :: real] \<and> Min (set [7, 7, 7 :: real]) = Max (set [7, 7, 7])
   \<and> bind_err (UVnorm (genfromtxt (map Fin [7, 7, 7]))) savetxt = Inr [NaN, NaN, NaN]"
  using C6_constant_UV_nan [of "[7, 7, 7]"] by (simp add: numeral_3_eq_3 bind_err_def)

section \<open>Properties of the file classifier\<close>

lemma py_slice_0_2: "py_slice s 0 2 = take 2 s"
  by (simp add: py_slice_def Let_def min_def)

lemma startswith_contains: "startswith s p \<Longrightarrow> contains p s"
  by (cases s) (simp_all add: startswith_def)

lemma osxbug_pred: "(py_slice s 0 2 = ''._'' \<and> contains ''._'' s) = startswith s ''._''"
  using startswith_contains [of s "''._''"] by (auto simp: py_slice_0_2 startswith_def numeral_2_eq_2)

lemma cafiles_26_filter:
  "cafiles_26 conv = filter (\<lambda>s. \<not> startswith s ''._'') (cafiles_23 conv)"
  unfolding cafiles_26_def osxbug_def osxbug_pred
  by (rule filter_cong) auto

lemma cafiles_27_filter: "cafiles_27 conv = filter is_candidate conv"
  by (auto simp: cafiles_27_def cafiles_26_filter cafiles_23_def convertedfiles2_def is_candidate_def
           intro: filter_cong)

lemma controlfile_filter: "controlfile conv = filter is_control conv"
  by (auto simp: controlfile_def cafiles_27_filter is_control_def intro: filter_cong)

lemma UVfile_filter: "UVfile conv = filter is_UV conv"
  by (auto simp: UVfile_def cafiles_32_def cafiles_27_filter is_UV_def intro: filter_cong)

lemma cafiles_filter: "cafiles conv = filter is_recording conv"
  by (auto simp: cafiles_def cafiles_32_def cafiles_27_filter is_recording_def intro: filter_cong)

lemma index0_filter:
  "index0 (filter P xs) = (case List.find P xs of None \<Rightarrow> Inl IndexError | Some x \<Rightarrow> Inr x)"
  by (induction xs) (simp_all add: index0_def)

lemma mset_single_list: "mset xs = {#x#} \<Longrightarrow> xs = [x]"
  by (cases xs) auto


lemma hidden_not_candidate: "startswith h ''._'' \<Longrightarrow> \<not> is_candidate h"
  by (simp add: is_candidate_def)

lemma DS_Store_not_candidate: "\<not> is_candidate ''.DS_Store''"
  by (simp add: is_candidate_def startswith_def)

lemma names_kinds:
  "is_control ''control_dt_1.txt''" "\<not> is_UV ''control_dt_1.txt''" "\<not> is_recording ''control_dt_1.txt''"
  "\<not> is_control ''UV_dt_1.txt''" "is_UV ''UV_dt_1.txt''" "\<not> is_recording ''UV_dt_1.txt''"
  "\<not> is_control ''dt_2_Values.txt''" "\<not> is_UV ''dt_2_Values.txt''" "is_recording ''dt_2_Values.txt''"
  by (simp_all add: is_control_def is_UV_def is_recording_def is_candidate_def startswith_def)

lemma names_ascii:
  "is_ascii ''control_dt_1.txt''" "is_ascii ''UV_dt_1.txt''" "is_ascii ''dt_2_Values.txt''"
  by (simp_all add: is_ascii_def)

text \<open>
  Claim C7. For a directory that lists, in any order, exactly the files
  \<^verbatim>\<open>control_dt_1.txt\<close>, \<^verbatim>\<open>UV_dt_1.txt\<close>, \<^verbatim>\<open>dt_2_Values.txt\<close> and one hidden
  artifact (a resource-fork name, which starts with \<^verbatim>\<open>._\<close>, or \<^verbatim>\<open>.DS_Store\<close>),
  the classifier finds exactly one control file, exactly one UV file and exactly one
  recording, and the hidden artifact is in none of the three.
\<close>

theorem C7_classifier_scenario:
  assumes listing: "mset names = {#''control_dt_1.txt'', ''UV_dt_1.txt'', ''dt_2_Values.txt'', h#}"
    and hidden: "startswith h ''._'' \<or> h = ''.DS_Store''"
    and ascii: "is_ascii h"
  shows "controlfile names = [''control_dt_1.txt'']
         \<and> UVfile names = [''UV_dt_1.txt'']
         \<and> cafiles names = [''dt_2_Values.txt'']
         \<and> h \<notin> set (controlfile names) \<and> h \<notin> set (UVfile names) \<and> h \<notin> set (cafiles names)
         \<and> classify names = Inr \<lparr>control_name = ''control_dt_1.txt'', UV_name = ''UV_dt_1.txt'',
                                   recordings = [''dt_2_Values.txt'']\<rparr>"
proof -
  have nc: "\<not> is_candidate h"
    using hidden hidden_not_candidate DS_Store_not_candidate by blast
  then have h: "\<not> is_control h" "\<not> is_UV h" "\<not> is_recording h"
    by (simp_all add: is_control_def is_UV_def is_recording_def)
  have "mset (controlfile names) = {#''control_dt_1.txt''#}"
    by (simp add: controlfile_filter listing names_kinds h)
  then have c: "controlfile names = [''control_dt_1.txt'']" by (rule mset_single_list)
  have "mset (UVfile names) = {#''UV_dt_1.txt''#}"
    by (simp add: UVfile_filter listing names_kinds h)
  then have u: "UVfile names = [''UV_dt_1.txt'']" by (rule mset_single_list)
  have "mset (cafiles names) = {#''dt_2_Values.txt''#}"
    by (simp add: cafiles_filter listing names_kinds h)
  then have r: "cafiles names = [''dt_2_Values.txt'']" by (rule mset_single_list)
  have "set names = {''control_dt_1.txt'', ''UV_dt_1.txt'', ''dt_2_Values.txt'', h}"
    using listing by (metis set_mset_mset set_mset_add_mset_insert set_mset_empty)
  then have "list_all is_ascii names"
    using ascii names_ascii by (simp add: list_all_iff)
  then have "classify names = Inr \<lparr>control_name = ''control_dt_1.txt'', UV_name = ''UV_dt_1.txt'',
                                   recordings = [''dt_2_Values.txt'']\<rparr>"
    by (simp add: classify_def convertedfiles_def bind_err_def c u r index0_def)
  moreover have "h \<notin> set (controlfile names)" "h \<notin> set (UVfile names)" "h \<notin> set (cafiles names)"
    using h by (simp_all add: controlfile_filter UVfile_filter cafiles_filter)
  ultimately show ?thesis using c u r by simp
qed

theorem C7_classifier_scenario_witness:
  "controlfile [''._dt_2_Values.txt'', ''dt_2_Values.txt'', ''UV_dt_1.txt'', ''control_dt_1.txt'']
     = [''control_dt_1.txt'']
   \<and> UVfile [''._dt_2_Values.txt'', ''dt_2_Values.txt'', ''UV_dt_1.txt'', ''control_dt_1.txt'']
     = [''UV_dt_1.txt'']
   \<and> cafiles [''._dt_2_Values.txt'', ''dt_2_Values.txt'', ''UV_dt_1.txt'', ''control_dt_1.txt'']
     = [''dt_2_Values.txt'']"
  using C7_classifier_scenario [of "[''._dt_2_Values.txt'', ''dt_2_Values.txt'', ''UV_dt_1.txt'', ''control_dt_1.txt'']" "''._dt_2_Values.txt''"]
  by (simp add: startswith_def is_ascii_def)

text \<open>
  Claim C8 says that more than one file matching the control designation is an explicit
  error. With two control files the script raises nothing and reads the first.
\<close>

theorem C8_ambiguous_control_counterexample:
  "length (controlfile [''control_dt_1.txt'', ''control_dt_2.txt'', ''UV_dt_1.txt'', ''dt_2_Values.txt'']) = 2
   \<and> classify [''control_dt_1.txt'', ''control_dt_2.txt'', ''UV_dt_1.txt'', ''dt_2_Values.txt'']
       = Inr \<lparr>control_name = ''control_dt_1.txt'', UV_name = ''UV_dt_1.txt'',
               recordings = [''dt_2_Values.txt'']\<rparr>"
  by (simp add: classify_def convertedfiles_def bind_err_def index0_def is_ascii_def
       controlfile_filter UVfile_filter cafiles_filter
       is_control_def is_UV_def is_recording_def is_candidate_def startswith_def)

text \<open>
  Claim C8, as the script behaves: when no file matches the control designation, or none
  the UV designation, the script stops with IndexError; when more than one matches, it
  raises nothing and takes the first match in the order of the directory listing.
\<close>

theorem C8_classification_errors:
  assumes "list_all is_ascii names"
  shows "classify names =
           (case List.find is_control names of
              None \<Rightarrow> Inl IndexError
            | Some c \<Rightarrow>
                (case List.find is_UV names of
                   None \<Rightarrow> Inl IndexError
                 | Some u \<Rightarrow> Inr \<lparr>control_name = c, UV_name = u, recordings = filter is_recording names\<rparr>))"
  using assms
  by (simp add: classify_def convertedfiles_def bind_err_def controlfile_filter UVfile_filter
       cafiles_filter index0_filter split: option.splits)

theorem C8_classification_errors_witness:
  "list_all is_ascii [''UV_dt_1.txt'', ''dt_2_Values.txt'']
   \<and> classify [''UV_dt_1.txt'', ''dt_2_Values.txt''] = Inl IndexError
   \<and> List.find is_control [''UV_dt_1.txt'', ''dt_2_Values.txt''] = None"
  using C8_classification_errors [of "[''UV_dt_1.txt'', ''dt_2_Values.txt'']"]
  by (simp add: is_ascii_def is_control_def is_candidate_def startswith_def)

section \<open>Properties of the rate extraction\<close>

lemma sign_not_digit: "is_sign c \<Longrightarrow> \<not> is_digit c"
  by (auto simp: is_sign_def is_digit_def)

lemma match_here_None_iff:
  "match_here s = None \<longleftrightarrow>
     (case s of [] \<Rightarrow> True
      | c # cs \<Rightarrow> \<not> is_digit c \<and> \<not> (is_sign c \<and> (case cs of [] \<Rightarrow> False | d # _ \<Rightarrow> is_digit d)))"
proof (cases s)
  case Nil
  then show ?thesis by (simp add: match_here_def opt_char_def digits_def)
next
  case (Cons c cs)
  show ?thesis
  proof (cases "is_sign c")
    case True
    then show ?thesis
      using sign_not_digit [OF True]
      by (cases cs) (simp_all add: Cons match_here_def opt_char_def digits_def split: prod.splits)
  next
    case False
    then show ?thesis
      by (simp add: Cons match_here_def opt_char_def digits_def split: prod.splits)
  qed
qed

lemma match_here_None_no_digit:
  "match_here (c # cs) = None \<Longrightarrow> \<not> is_digit c"
  by (simp add: match_here_None_iff)

lemma match_here_Some_digit:
  "match_here (c # cs) = Some m \<Longrightarrow> list_ex is_digit (c # cs)"
  using match_here_None_iff [of "c # cs"]
  by (cases cs) (auto split: list.splits)

lemma findall_empty_iff: "findall s = [] \<longleftrightarrow> \<not> list_ex is_digit s"
proof (induction s rule: findall.induct)
  case 1
  then show ?case by simp
next
  case (2 c cs)
  show ?case
  proof (cases "match_here (c # cs)")
    case None
    with 2(1) match_here_None_no_digit [OF None] show ?thesis by simp
  next
    case (Some m)
    then show ?thesis using match_here_Some_digit [OF Some] by simp
  qed
qed

text \<open>
  Claim C4 says that the rate extracted from \<^verbatim>\<open>dt_5_Values.txt\<close> is 5.0. The marker
  the script looks for is \<^verbatim>\<open>_dt\<close>, which this name does not contain: \<^verbatim>\<open>find\<close>
  returns -1, the text searched is the last character of the name, no number is found
  and indexing the empty list of matches raises IndexError.
\<close>

theorem C4_rate_counterexample:
  "timerate ''dt_5_Values.txt'' = Inl IndexError"
  by (simp add: timerate_def rate_text_def py_slice_def startswith_def index0_def bind_err_def
       match_here_def opt_char_def digits_def is_sign_def is_digit_def)

lemma py_find_range: "py_find s sub = - 1 \<or> (0 \<le> py_find s sub \<and> py_find s sub \<le> int (length s))"
  by (induction s) (auto simp: Let_def)

lemma py_find_contains: "0 \<le> py_find s sub \<longleftrightarrow> contains sub s"
  by (induction s) (auto simp: Let_def)

lemma py_find_startswith:
  "contains sub s \<Longrightarrow> startswith (drop (nat (py_find s sub)) s) sub"
proof (induction s)
  case Nil
  then show ?case by (simp add: startswith_def)
next
  case (Cons c cs)
  show ?case
  proof (cases "startswith (c # cs) sub")
    case True
    then show ?thesis by simp
  next
    case False
    with Cons.prems have in_tl: "contains sub cs" by simp
    then have nn: "0 \<le> py_find cs sub" by (simp add: py_find_contains)
    then have "nat (py_find cs sub + 1) = Suc (nat (py_find cs sub))" by simp
    with False nn Cons.IH [OF in_tl] show ?thesis by (simp add: Let_def)
  qed
qed

lemma rate_text_eq:
  "rate_text f = (if contains ''_dt'' f then drop (nat (py_find f ''_dt'')) f else drop (length f - 1) f)"
proof (cases "contains ''_dt'' f")
  case True
  then have "0 \<le> py_find f ''_dt''" by (simp add: py_find_contains)
  moreover have "py_find f ''_dt'' \<le> int (length f)"
    using py_find_range [of f "''_dt''"] by auto
  ultimately show ?thesis using True by (simp add: rate_text_def py_slice_def Let_def min_def)
next
  case False
  then have "\<not> 0 \<le> py_find f ''_dt''" by (simp add: py_find_contains)
  then have m1: "py_find f ''_dt'' = - 1" using py_find_range [of f "''_dt''"] by auto
  have "nat (max 0 (int (length f) - 1)) = length f - 1" by auto
  moreover have "nat (int (length f) - max 0 (int (length f) - 1)) = length f - (length f - 1)" by auto
  ultimately show ?thesis using False
    by (simp add: rate_text_def py_slice_def Let_def m1)
qed

lemma timerate_eq:
  "timerate f = (if list_ex is_digit (rate_text f) then py_float (hd (findall (rate_text f)))
                 else Inl IndexError)"
proof (cases "findall (rate_text f)")
  case Nil
  then show ?thesis using findall_empty_iff [of "rate_text f"]
    by (simp add: timerate_def index0_def bind_err_def)
next
  case (Cons m ms)
  then show ?thesis using findall_empty_iff [of "rate_text f"]
    by (simp add: timerate_def index0_def bind_err_def)
qed

text \<open>
  Claim C4, as the script behaves. The text searched is the file name from the first
  occurrence of the marker \<^verbatim>\<open>_dt\<close> on, or the last character of the name alone when
  the marker does not occur (as in \<^verbatim>\<open>dt_5_Values.txt\<close>, where it is \<^verbatim>\<open>t\<close>). The
  extraction raises IndexError exactly when that text has no digit; otherwise its result
  is \<^verbatim>\<open>float\<close> of the first match, an error only when the match is not a number.
  For \<^verbatim>\<open>n1_dt_5_Values.txt\<close> it returns 5.0.
\<close>

theorem C4_rate_extraction:
  "timerate ''n1_dt_5_Values.txt'' = Inr 5
   \<and> rate_text ''dt_5_Values.txt'' = ''t''
   \<and> (if contains ''_dt'' f then startswith (rate_text f) ''_dt'' \<and> rate_text f = drop (nat (py_find f ''_dt'')) f
       else rate_text f = drop (length f - 1) f)
   \<and> timerate f = (if list_ex is_digit (rate_text f) then py_float (hd (findall (rate_text f)))
                    else Inl IndexError)"
proof (intro conjI)
  show "timerate ''n1_dt_5_Values.txt'' = Inr 5"
    by (simp add: timerate_def rate_text_def py_slice_def startswith_def index0_def bind_err_def
       match_here_def opt_char_def digits_def is_sign_def is_digit_def is_dot_def is_exp_def
       py_float_def digits_val_def)
  show "rate_text ''dt_5_Values.txt'' = ''t''"
    by (simp add: rate_text_def py_slice_def startswith_def)
  show "if contains ''_dt'' f then startswith (rate_text f) ''_dt'' \<and> rate_text f = drop (nat (py_find f ''_dt'')) f
       else rate_text f = drop (length f - 1) f"
    using py_find_startswith [of "''_dt''" f] by (simp add: rate_text_eq)
  show "timerate f = (if list_ex is_digit (rate_text f) then py_float (hd (findall (rate_text f)))
                    else Inl IndexError)"
    by (rule timerate_eq)
qed

theorem C4_rate_extraction_witness:
  "contains ''_dt'' ''n1_dt_0.25_Values.txt''
   \<and> rate_text ''n1_dt_0.25_Values.txt'' = ''_dt_0.25_Values.txt''
   \<and> list_ex is_digit (rate_text ''n1_dt_0.25_Values.txt'')
   \<and> timerate ''n1_dt_0.25_Values.txt'' = Inr (1 / 4)"
  using C4_rate_extraction [of "''n1_dt_0.25_Values.txt''"]
  by (simp add: timerate_def rate_text_def py_slice_def startswith_def index0_def bind_err_def
       match_here_def opt_char_def digits_def is_sign_def is_digit_def is_dot_def is_exp_def
       py_float_def digits_val_def)

section \<open>Properties of the range scanner\<close>

text \<open>The definitions that evaluate a run of the script on a given directory.\<close>

lemmas eval_defs =
  script_def scan_and_plot_def csvz_def drawer_def is_finite_def normalize_one_def
  range_scanner_def scan_min_def UVnorm_def dF_F_def genfromtxt_def bind_err_def index0_def
  np_max2_def np_min2_def
  convertedfiles_def is_ascii_def controlfile_filter UVfile_filter cafiles_filter
  is_control_def is_UV_def is_recording_def is_candidate_def startswith_def endswith_def
  read_file_def write_file_def path_join_def
  timerate_def rate_text_def output_filename_def py_slice_def
  match_here_def opt_char_def digits_def is_sign_def is_digit_def is_dot_def is_exp_def
  py_float_def digits_val_def Let_def

lemma np_max_genfromtxt_Fin:
  "f \<noteq> [] \<Longrightarrow> np_max (genfromtxt (map Fin f)) = Inr (Fin (Max (set f)))"
  using np_max_Fin [of f] genfromtxt_cases [of "map Fin f"]
  by (cases f) auto

lemma np_min_genfromtxt_Fin:
  "f \<noteq> [] \<Longrightarrow> np_min (genfromtxt (map Fin f)) = Inr (Fin (Min (set f)))"
  using np_min_Fin [of f] genfromtxt_cases [of "map Fin f"]
  by (cases f) auto

lemma scan_loop_inv:
  assumes "[] \<notin> set fs" and "0 \<le> mx"
  shows "\<exists>M d'. scan_loop (map (map Fin) fs) (Fin mx) d = Inr (Fin M, d')
           \<and> mx \<le> M
           \<and> (\<forall>f\<in>set fs. Max (set f) \<le> M)
           \<and> (M = mx \<or> (\<exists>f\<in>set fs. M = 11 / 10 * Max (set f) \<and> mx < Max (set f)))
           \<and> d' = (if fs = [] then d else Some (genfromtxt (map Fin (last fs))))"
  using assms
proof (induction fs arbitrary: mx d)
  case Nil
  then show ?case by simp
next
  case (Cons f fs)
  let ?m = "Max (set f)"
  let ?mx' = "if mx < ?m then ?m * (11 / 10) else mx"
  have fne: "f \<noteq> []" and rest: "[] \<notin> set fs" using Cons.prems(1) by auto
  have ge: "mx \<le> ?mx'" and mle: "?m \<le> ?mx'" using Cons.prems(2) by auto
  then have nonneg: "0 \<le> ?mx'" using Cons.prems(2) by linarith
  obtain M d' where run: "scan_loop (map (map Fin) fs) (Fin ?mx') (Some (genfromtxt (map Fin f))) = Inr (Fin M, d')"
    and M1: "?mx' \<le> M" and M2: "\<forall>g\<in>set fs. Max (set g) \<le> M"
    and M3: "M = ?mx' \<or> (\<exists>g\<in>set fs. M = 11 / 10 * Max (set g) \<and> ?mx' < Max (set g))"
    and D: "d' = (if fs = [] then Some (genfromtxt (map Fin f)) else Some (genfromtxt (map Fin (last fs))))"
    using Cons.IH [OF rest nonneg, of "Some (genfromtxt (map Fin f))"] by blast
  have step: "scan_loop (map (map Fin) (f # fs)) (Fin mx) d = Inr (Fin M, d')"
    using run by (cases "mx < ?m") (simp_all add: np_max_genfromtxt_Fin [OF fne] bind_err_def)
  have A: "mx \<le> M" using ge M1 by linarith
  have B: "\<forall>g\<in>set (f # fs). Max (set g) \<le> M" using mle M1 M2 by auto
  have C: "M = mx \<or> (\<exists>g\<in>set (f # fs). M = 11 / 10 * Max (set g) \<and> mx < Max (set g))"
  proof -
    from M3 show ?thesis
    proof
      assume "M = ?mx'"
      then show ?thesis by (cases "mx < ?m") auto
    next
      assume "\<exists>g\<in>set fs. M = 11 / 10 * Max (set g) \<and> ?mx' < Max (set g)"
      then obtain g where "g \<in> set fs" "M = 11 / 10 * Max (set g)" "?mx' < Max (set g)" by blast
      with ge have "g \<in> set (f # fs) \<and> M = 11 / 10 * Max (set g) \<and> mx < Max (set g)" by auto
      then show ?thesis by blast
    qed
  qed
  have D': "d' = (if f # fs = [] then d else Some (genfromtxt (map Fin (last (f # fs)))))"
    using D by simp
  from step A B C D' show ?case by blast
qed


lemma Max_concat_in:
  assumes "fs \<noteq> []" and "[] \<notin> set fs"
  shows "\<exists>f\<in>set fs. Max (set (concat fs)) \<in> set f"
proof -
  obtain f where "f \<in> set fs" using assms(1) by (cases fs) auto
  with assms(2) have "set (concat fs) \<noteq> {}" by (cases f) auto
  then have "Max (set (concat fs)) \<in> set (concat fs)" by (intro Max_in) simp_all
  then show ?thesis by auto
qed

lemma Max_file_le_concat:
  assumes "f \<in> set fs" and "f \<noteq> []"
  shows "Max (set f) \<le> Max (set (concat fs :: real list))"
proof -
  have "Max (set f) \<in> set f" using assms(2) by (intro Max_in) simp_all
  with assms(1) have "Max (set f) \<in> set (concat fs)" by auto
  then show ?thesis by (intro Max_ge) simp_all
qed

text \<open>
  Claim C2 says that the final maximum is 1.1 times the true maximum of the batch when
  that maximum is positive. The loop compares each file's maximum with the running
  value, which is already scaled: after a file with maximum 1 the running value is 1.1,
  and a later file with maximum 1.05 does not raise it. The final maximum is 1.1, the
  true maximum 1.05, and 1.1 times it is 1.155.
\<close>

theorem C2_final_max_counterexample:
  "range_scanner [[Fin 0, Fin 1], [Fin 0, Fin (105 / 100)]] None = Inr (Fin (11 / 10), Fin 0)
   \<and> Max (set (concat [[0, 1], [0, 105 / 100 :: real]])) = 105 / 100
   \<and> (11 / 10 :: real) \<noteq> 11 / 10 * (105 / 100)"
  by (simp add: range_scanner_def scan_min_def genfromtxt_def bind_err_def np_max2_def np_min2_def)

text \<open>
  Claim C2, as the script behaves. For a batch of non-empty trace files of finite values
  with true maximum \<open>T\<close>: the final maximum is the seed 0 when \<open>T \<le> 0\<close>; when
  \<open>T > 0\<close> it is 1.1 times the maximum of one of the files, it lies between \<open>T\<close>
  and \<open>1.1 T\<close>, and it equals \<open>1.1 T\<close> when the first file scanned holds the true
  maximum (in particular when there is one file).
\<close>

theorem C2_final_max:
  assumes "fs \<noteq> []" and "[] \<notin> set fs"
  defines "T \<equiv> Max (set (concat fs))"
  shows "\<exists>M mn. range_scanner (map (map Fin) fs) d = Inr (Fin M, mn)
           \<and> (T \<le> 0 \<longrightarrow> M = 0)
           \<and> (0 < T \<longrightarrow> T \<le> M \<and> M \<le> 11 / 10 * T
                       \<and> (\<exists>f\<in>set fs. M = 11 / 10 * Max (set f))
                       \<and> (Max (set (hd fs)) = T \<longrightarrow> M = 11 / 10 * T))"
proof -
  obtain M d' where run: "scan_loop (map (map Fin) fs) (Fin 0) d = Inr (Fin M, d')"
    and M1: "0 \<le> M" and M2: "\<forall>f\<in>set fs. Max (set f) \<le> M"
    and M3: "M = 0 \<or> (\<exists>f\<in>set fs. M = 11 / 10 * Max (set f) \<and> 0 < Max (set f))"
    and D: "d' = Some (genfromtxt (map Fin (last fs)))"
    using scan_loop_inv [OF assms(2), of 0 d] assms(1) by auto
  have lne: "last fs \<noteq> []" using assms(1,2) last_in_set by metis
  have res: "range_scanner (map (map Fin) fs) d
               = Inr (Fin M, if Min (set (last fs)) < 0 then Fin (Min (set (last fs))) else Fin 0)"
    by (simp add: range_scanner_def run D scan_min_def np_min_genfromtxt_Fin [OF lne] bind_err_def)
  have le_T: "\<forall>f\<in>set fs. Max (set f) \<le> T"
    unfolding T_def using Max_file_le_concat assms(2) by metis
  obtain f0 where f0: "f0 \<in> set fs" "T \<in> set f0"
    unfolding T_def using Max_concat_in [OF assms(1,2)] by blast
  then have "T \<le> Max (set f0)" by (intro Max_ge) simp_all
  with f0(1) M2 have T_le_M: "T \<le> M" by fastforce
  have zero: "T \<le> 0 \<longrightarrow> M = 0"
  proof
    assume "T \<le> 0"
    with le_T have "\<forall>f\<in>set fs. Max (set f) \<le> 0" by fastforce
    with M3 show "M = 0" by fastforce
  qed
  have pos: "0 < T \<longrightarrow> T \<le> M \<and> M \<le> 11 / 10 * T
                       \<and> (\<exists>f\<in>set fs. M = 11 / 10 * Max (set f))
                       \<and> (Max (set (hd fs)) = T \<longrightarrow> M = 11 / 10 * T)"
  proof
    assume Tpos: "0 < T"
    with T_le_M have "M \<noteq> 0" by simp
    with M3 obtain f where f: "f \<in> set fs" "M = 11 / 10 * Max (set f)" by blast
    with le_T have ub: "M \<le> 11 / 10 * T" by fastforce
    have first: "Max (set (hd fs)) = T \<longrightarrow> M = 11 / 10 * T"
    proof
      assume hdT: "Max (set (hd fs)) = T"
      obtain g gs where fs: "fs = g # gs" using assms(1) by (cases fs) auto
      have gne: "g \<noteq> []" and rest: "[] \<notin> set gs" using assms(2) fs by auto
      have gT: "Max (set g) = T" using hdT fs by simp
      have nn: "(0::real) \<le> 11 / 10 * T" using Tpos by simp
      obtain M' d'' where run': "scan_loop (map (map Fin) gs) (Fin (11 / 10 * T)) (Some (genfromtxt (map Fin g))) = Inr (Fin M', d'')"
        and M3': "M' = 11 / 10 * T \<or> (\<exists>f\<in>set gs. M' = 11 / 10 * Max (set f) \<and> 11 / 10 * T < Max (set f))"
        using scan_loop_inv [OF rest nn, of "Some (genfromtxt (map Fin g))"] by blast
      have "scan_loop (map (map Fin) fs) (Fin 0) d = Inr (Fin M', d'')"
        using run' Tpos gT by (simp add: fs np_max_genfromtxt_Fin [OF gne] bind_err_def mult.commute)
      with run have MM: "M = M'" by simp
      have "\<not> (\<exists>f\<in>set gs. 11 / 10 * T < Max (set f))"
      proof
        assume "\<exists>f\<in>set gs. 11 / 10 * T < Max (set f)"
        then obtain f where "f \<in> set gs" "11 / 10 * T < Max (set f)" by blast
        moreover have "Max (set f) \<le> T" using le_T \<open>f \<in> set gs\<close> fs by simp
        ultimately show False using Tpos by simp
      qed
      with M3' MM show "M = 11 / 10 * T" by blast
    qed
    from T_le_M ub f first show "T \<le> M \<and> M \<le> 11 / 10 * T
                       \<and> (\<exists>f\<in>set fs. M = 11 / 10 * Max (set f))
                       \<and> (Max (set (hd fs)) = T \<longrightarrow> M = 11 / 10 * T)" by blast
  qed
  from res zero pos show ?thesis by blast
qed

theorem C2_final_max_witness:
  "[[0, 8 / 10], [0, 12 / 10 :: real]] \<noteq> [] \<and> [] \<notin> set [[0, 8 / 10], [0, 12 / 10 :: real]]
   \<and> (\<exists>mn. range_scanner [[Fin 0, Fin (8 / 10)], [Fin 0, Fin (12 / 10)]] None = Inr (Fin (132 / 100), mn))"
  using C2_final_max [of "[[0, 8 / 10], [0, 12 / 10]]" None]
  by (simp add: range_scanner_def scan_min_def genfromtxt_def bind_err_def np_max2_def np_min2_def)

text \<open>
  Claim C3 says that the final minimum is the minimum over the whole batch when that is
  below the seed 0, and \<open>-0.2\<close> for trace files with ranges \<open>[-0.2, 0.8]\<close> and
  \<open>[-0.1, 1.2]\<close>. The test of line 62 stands outside the loop, so only the file
  scanned last counts: scanned in this order the two files give the minimum \<open>-0.1\<close>,
  while the minimum of the batch is \<open>-0.2\<close>. The same in a whole run: with a control
  of \<open>[1,1]\<close>, the recordings \<open>[0.8, 1.8]\<close> and \<open>[0.9, 2.2]\<close> give these two
  traces, which are scanned after \<^verbatim>\<open>UV.csv\<close>, and the run ends with the minimum
  \<open>-0.1\<close>.
\<close>

theorem C3_final_min_last_file_only:
  "range_scanner [[Fin (- (2 / 10)), Fin (8 / 10)], [Fin (- (1 / 10)), Fin (12 / 10)]] None
     = Inr (Fin (132 / 100), Fin (- (1 / 10)))
   \<and> Min (set (concat [[- (2 / 10), 8 / 10], [- (1 / 10), 12 / 10 :: real]])) = - (2 / 10)
   \<and> (\<exists>r. script ''/data/''
              (Dir [(''control_dt_1.txt'', [Fin 1, Fin 1]),
                    (''UV_dt_1.txt'', [Fin 0, Fin 5, Fin 10]),
                    (''x_dt_1_a_Values.txt'', [Fin (8 / 10), Fin (18 / 10)]),
                    (''x_dt_1_b_Values.txt'', [Fin (9 / 10), Fin (22 / 10)])] []) = Inr r
          \<and> map snd (csvz ''/data/'' (final_dir r))
              = [[Fin 0, Fin (1 / 2), Fin 1], [Fin (- (2 / 10)), Fin (8 / 10)],
                 [Fin (- (1 / 10)), Fin (12 / 10)]]
          \<and> maxvalue r = Fin (132 / 100) \<and> minvalue r = Fin (- (1 / 10)))"
proof (intro conjI)
  show "range_scanner [[Fin (- (2 / 10)), Fin (8 / 10)], [Fin (- (1 / 10)), Fin (12 / 10)]] None
     = Inr (Fin (132 / 100), Fin (- (1 / 10)))"
    by (simp add: range_scanner_def scan_min_def genfromtxt_def bind_err_def np_max2_def np_min2_def)
  show "Min (set (concat [[- (2 / 10), 8 / 10], [- (1 / 10), 12 / 10 :: real]])) = - (2 / 10)"
    by simp
  show "\<exists>r. script ''/data/''
              (Dir [(''control_dt_1.txt'', [Fin 1, Fin 1]),
                    (''UV_dt_1.txt'', [Fin 0, Fin 5, Fin 10]),
                    (''x_dt_1_a_Values.txt'', [Fin (8 / 10), Fin (18 / 10)]),
                    (''x_dt_1_b_Values.txt'', [Fin (9 / 10), Fin (22 / 10)])] []) = Inr r
          \<and> map snd (csvz ''/data/'' (final_dir r))
              = [[Fin 0, Fin (1 / 2), Fin 1], [Fin (- (2 / 10)), Fin (8 / 10)],
                 [Fin (- (1 / 10)), Fin (12 / 10)]]
          \<and> maxvalue r = Fin (132 / 100) \<and> minvalue r = Fin (- (1 / 10))"
    by (simp add: eval_defs)
qed

text \<open>
  In general the final minimum is decided by the file scanned last alone.
\<close>

lemma range_scanner_min_last:
  assumes "fs \<noteq> []" and "[] \<notin> set fs"
  shows "\<exists>M. range_scanner (map (map Fin) fs) d
               = Inr (Fin M, Fin (min 0 (Min (set (last fs)))))"
proof -
  obtain M d' where run: "scan_loop (map (map Fin) fs) (Fin 0) d = Inr (Fin M, d')"
    and D: "d' = Some (genfromtxt (map Fin (last fs)))"
    using scan_loop_inv [OF assms(2), of 0 d] assms(1) by auto
  have lne: "last fs \<noteq> []" using assms(1,2) last_in_set by metis
  have "range_scanner (map (map Fin) fs) d
               = Inr (Fin M, Fin (min 0 (Min (set (last fs)))))"
    by (simp add: range_scanner_def run D scan_min_def np_min_genfromtxt_Fin [OF lne] bind_err_def min_def)
  then show ?thesis by blast
qed

section \<open>Properties of the whole run\<close>

lemma bind_err_Inr: "bind_err m f = Inr y \<longleftrightarrow> (\<exists>x. m = Inr x \<and> f x = Inr y)"
  by (cases m) (simp_all add: bind_err_def)

lemma map_of_put_file_same: "map_of (put_file name col fs) name = Some col"
  by (induction fs) auto

lemma map_of_put_file_other: "n \<noteq> name \<Longrightarrow> map_of (put_file name col fs) n = map_of fs n"
  by (induction fs) auto

lemma read_after_write_same:
  "write_file d name col = Inr d' \<Longrightarrow> read_file d' name = Inr col"
  by (auto simp: write_file_def read_file_def map_of_put_file_same split: if_splits)

lemma read_after_write_other:
  "write_file d name col = Inr d' \<Longrightarrow> n \<noteq> name \<Longrightarrow> read_file d' n = read_file d n"
  by (auto simp: write_file_def read_file_def map_of_put_file_other split: if_splits)

lemma normalize_one_keeps:
  assumes "normalize_one control d f = Inr (d', a)" and "output_filename f \<noteq> n"
  shows "read_file d' n = read_file d n"
  using assms read_after_write_other [of d "output_filename f" _ d' n]
  by (auto simp: normalize_one_def bind_err_Inr)

lemma normalizer_keeps:
  assumes "normalizer control fs d prev = Inr (d', prev')" and "\<forall>f\<in>set fs. output_filename f \<noteq> n"
  shows "read_file d' n = read_file d n"
  using assms
proof (induction fs arbitrary: d prev)
  case Nil
  then show ?case by simp
next
  case (Cons f fs)
  from Cons.prems(1) obtain d1 a where one: "normalize_one control d f = Inr (d1, a)"
    and rest: "normalizer control fs d1 (Some a) = Inr (d', prev')"
    by (auto simp: bind_err_Inr)
  have "read_file d1 n = read_file d n"
    using normalize_one_keeps [OF one] Cons.prems(2) by simp
  moreover have "read_file d' n = read_file d1 n"
    using Cons.IH [OF rest] Cons.prems(2) by simp
  ultimately show ?case by simp
qed

lemma contains_Cons: "contains sub cs \<Longrightarrow> contains sub (c # cs)"
  by simp

lemma contains_drop: "contains sub (drop j s) \<Longrightarrow> contains sub s"
proof (induction s arbitrary: j)
  case Nil
  then show ?case by simp
next
  case (Cons c cs)
  then show ?case by (cases j) auto
qed

lemma take_eq_startswith: "take k xs = sub \<Longrightarrow> startswith xs sub"
  by (auto simp: startswith_def min_def)

lemma py_slice_contains: "py_slice s a b = sub \<Longrightarrow> contains sub s"
  unfolding py_slice_def Let_def
  using contains_drop take_eq_startswith startswith_contains by blast

lemma output_filename_UV: "output_filename f = ''UV.csv'' \<Longrightarrow> contains ''UV'' f"
  using py_slice_contains [of f _ _ "''UV''"] by (simp add: output_filename_def)

lemma cafiles_no_UV: "f \<in> set (cafiles conv) \<Longrightarrow> output_filename f \<noteq> ''UV.csv''"
  using output_filename_UV by (auto simp: cafiles_def)


lemma csvz_top:
  assumes "read_file d name = Inr col" and "endswith name ''.csv''"
  shows "(path_join mypath name, col) \<in> set (csvz mypath d)"
proof -
  from assms(1) have "map_of (plain_files d) name = Some col"
    by (simp add: read_file_def split: option.splits)
  then have mem: "(name, col) \<in> set (plain_files d)" by (rule map_of_SomeD)
  obtain fs ds where d: "d = Dir fs ds" by (cases d)
  from mem assms(2) show ?thesis
    by (force simp: csvz_def d)
qed

lemma scan_step_good:
  assumes "good_max mx" and "mx' = (if np_less mx m then np_mul m (Fin (11 / 10)) else mx)"
  shows "good_max mx' \<and> \<not> np_less mx' mx \<and> \<not> np_less mx' m"
  using assms by (cases mx; cases m) (auto simp: good_max_def)

lemma not_less_chain:
  "good_max M \<Longrightarrow> good_max mx \<Longrightarrow> \<not> np_less M mx \<Longrightarrow> \<not> np_less mx m \<Longrightarrow> \<not> np_less M m"
  by (cases M; cases mx; cases m) (auto simp: good_max_def)

lemma scan_loop_bounds:
  assumes "scan_loop fs mx d = Inr (M, d')" and "good_max mx"
  shows "good_max M \<and> \<not> np_less M mx
         \<and> (\<forall>f\<in>set fs. \<exists>m. np_max (genfromtxt f) = Inr m \<and> \<not> np_less M m)"
  using assms
proof (induction fs arbitrary: mx d)
  case Nil
  then show ?case by (cases mx) (auto simp: good_max_def)
next
  case (Cons f fs)
  from Cons.prems(1) obtain m where m: "np_max (genfromtxt f) = Inr m"
    and rest: "scan_loop fs (if np_less mx m then np_mul m (Fin (11 / 10)) else mx) (Some (genfromtxt f)) = Inr (M, d')"
    by (auto simp: bind_err_Inr Let_def)
  let ?mx' = "if np_less mx m then np_mul m (Fin (11 / 10)) else mx"
  have step: "good_max ?mx'" "\<not> np_less ?mx' mx" "\<not> np_less ?mx' m"
    using scan_step_good [OF Cons.prems(2), of ?mx' m] by simp_all
  have ih: "good_max M" "\<not> np_less M ?mx'"
    "\<forall>g\<in>set fs. \<exists>k. np_max (genfromtxt g) = Inr k \<and> \<not> np_less M k"
    using Cons.IH [OF rest step(1)] by simp_all
  have a: "\<not> np_less M mx" using not_less_chain [OF ih(1) step(1) ih(2) step(2)] .
  have b: "\<not> np_less M m" using not_less_chain [OF ih(1) step(1) ih(2) step(3)] .
  from ih(1) a b m ih(3) show ?case by auto
qed

lemma range_scanner_bounds:
  assumes "range_scanner cs prev = Inr (mx, mn)"
  shows "\<forall>f\<in>set cs. \<exists>m. np_max (genfromtxt f) = Inr m \<and> \<not> np_less mx m"
proof -
  from assms obtain d' where "scan_loop cs (Fin 0) prev = Inr (mx, d')"
    by (auto simp: range_scanner_def bind_err_Inr)
  then show ?thesis using scan_loop_bounds [of cs "Fin 0" prev mx d']
    by (simp add: good_max_def)
qed

lemma drawer_loop_each:
  assumes "drawer_loop d mn mx paths = Inr ps" and "path \<in> set paths"
  shows "\<exists>p\<in>set ps. drawer d mn path mx = Inr p"
  using assms
proof (induction paths arbitrary: ps)
  case Nil
  then show ?case by simp
next
  case (Cons a paths)
  from Cons.prems(1) obtain p ps' where p: "drawer d mn a mx = Inr p"
    and ps': "drawer_loop d mn mx paths = Inr ps'" and ps: "ps = p # ps'"
    by (auto simp: bind_err_Inr)
  show ?case
  proof (cases "path = a")
    case True
    with p ps show ?thesis by simp
  next
    case False
    with Cons.prems(2) have "path \<in> set paths" by simp
    from Cons.IH [OF ps' this] ps show ?thesis by auto
  qed
qed

lemma py_rfind_absent: "c \<notin> set b \<Longrightarrow> py_rfind b [c] = - 1"
  by (induction b) (auto simp: startswith_def Let_def)

lemma py_rfind_last_sep:
  "c \<notin> set b \<Longrightarrow> py_rfind (x @ c # b) [c] = int (length x)"
  by (induction x) (simp_all add: py_rfind_absent startswith_def Let_def)

lemma py_slice_from: "0 \<le> k \<Longrightarrow> py_slice s k (int (length s)) = drop (nat k) s"
  by (auto simp: py_slice_def Let_def min_def)

lemma endswith_sep: "endswith a [c] \<Longrightarrow> \<exists>x. a = x @ [c]"
  by (auto simp: endswith_def) (metis append_take_drop_id)

lemma basename_sep:
  assumes "c \<notin> set b" and "s = x @ c # b"
  shows "py_slice s (py_rfind s [c] + 1) (int (length s)) = b"
proof -
  have r: "py_rfind s [c] = int (length x)" using assms by (simp add: py_rfind_last_sep)
  have "py_slice s (py_rfind s [c] + 1) (int (length s)) = py_slice s (int (length x) + 1) (int (length s))"
    by (simp only: r)
  also have "\<dots> = drop (nat (int (length x) + 1)) s"
    by (rule py_slice_from) simp
  also have "\<dots> = drop (Suc (length x)) s"
    by (simp add: nat_add_distrib)
  also have "\<dots> = b" using assms(2) by simp
  finally show ?thesis .
qed

lemma basename_join:
  assumes "CHR ''/'' \<notin> set b"
  shows "py_slice (path_join a b) (py_rfind (path_join a b) ''/'' + 1) (int (length (path_join a b))) = b"
proof -
  have nb: "\<not> startswith b ''/''" using assms by (cases b) (auto simp: startswith_def)
  consider (empty) "a = []" | (slash) x where "a = x @ ''/''" | (plain) "a \<noteq> []" "\<not> endswith a ''/''"
    using endswith_sep [of a "CHR ''/''"] by blast
  then show ?thesis
  proof cases
    case empty
    then have pj: "path_join a b = b" using nb by (simp add: path_join_def)
    have "py_slice b 0 (int (length b)) = drop (nat 0) b" by (rule py_slice_from) simp
    then show ?thesis using assms by (simp add: pj py_rfind_absent)
  next
    case slash
    then have pj: "path_join a b = x @ CHR ''/'' # b" using nb by (simp add: path_join_def endswith_def)
    show ?thesis using basename_sep [OF assms pj] .
  next
    case plain
    then have pj: "path_join a b = a @ CHR ''/'' # b" using nb by (simp add: path_join_def)
    show ?thesis using basename_sep [OF assms pj] .
  qed
qed


lemma drawer_top:
  assumes "drawer d mn (path_join mypath name) mx = Inr p" and "CHR ''/'' \<notin> set name"
  shows "\<exists>col. read_file d name = Inr col \<and> genfromtxt col = Arr1 col
          \<and> is_finite mn \<and> is_finite mx
          \<and> p = \<lparr>title = name, ylim = (mn, mx), xlim = (0, length col),
                   y_range_high = np_sub mx (Fin 1),
                   image_name = py_slice name 0 (- 4) @ ''.png''\<rparr>"
proof -
  from assms obtain col where col: "read_file d name = Inr col"
    and fin: "is_finite mn" "is_finite mx"
    and c: "(case genfromtxt col of Arr0 x \<Rightarrow> Inl IndexError
             | Arr1 xs \<Rightarrow> Inr \<lparr>title = name, ylim = (mn, mx), xlim = (0, length xs),
                   y_range_high = np_sub mx (Fin 1),
                   image_name = py_slice name 0 (- 4) @ ''.png''\<rparr>) = Inr p"
    by (auto simp: drawer_def basename_join Let_def bind_err_Inr split: if_splits)
  from c genfromtxt_cases [of col] have "genfromtxt col = Arr1 col" by auto
  with c col fin show ?thesis by auto
qed

text \<open>
  What holds of the UV reference whenever the script runs to its end: the rescaled UV
  sequence written to \<^verbatim>\<open>UV.csv\<close> is still there after the normalizer, its path is
  among those of line 56, the final maximum is not below its maximum, the limits of the
  axes are finite, and the plotter draws it under the title \<^verbatim>\<open>UV.csv\<close> into
  \<^verbatim>\<open>UV.png\<close>. The range scanner reads every csv file found below the working
  directory (the final maximum is not below the maximum of any of them), and the plotter
  is called with every such path and returns; which file such a call draws is another
  matter, see below.
\<close>

lemma UV_scanned_and_plotted:
  assumes "script mypath d = Inr r"
  shows "(\<exists>u ucol vals m.
            index0 (UVfile (map fst (plain_files d))) = Inr u \<and> read_file d u = Inr ucol
            \<and> UVnorm (genfromtxt ucol) = Inr (Arr1 vals)
            \<and> read_file (final_dir r) ''UV.csv'' = Inr vals
            \<and> (path_join mypath ''UV.csv'', vals) \<in> set (csvz mypath (final_dir r))
            \<and> path_join mypath ''UV.csv'' \<in> set (csv_paths r)
            \<and> np_max (genfromtxt vals) = Inr m \<and> \<not> np_less (maxvalue r) m
            \<and> is_finite (minvalue r) \<and> is_finite (maxvalue r)
            \<and> \<lparr>title = ''UV.csv'', ylim = (minvalue r, maxvalue r), xlim = (0, length vals),
                 y_range_high = np_sub (maxvalue r) (Fin 1), image_name = ''UV.png''\<rparr> \<in> set (plots r))
         \<and> csv_paths r = map fst (csvz mypath (final_dir r))
         \<and> (\<forall>(path, col)\<in>set (csvz mypath (final_dir r)).
               \<exists>m. np_max (genfromtxt col) = Inr m \<and> \<not> np_less (maxvalue r) m)
         \<and> (\<forall>path\<in>set (csv_paths r).
               \<exists>p\<in>set (plots r). drawer (final_dir r) (minvalue r) path (maxvalue r) = Inr p)"
proof -
  from assms obtain conv cname ccol uname ucol uvn vals d1 d2 prev where
    conv: "convertedfiles (map fst (plain_files d)) = Inr conv"
    and u: "index0 (UVfile conv) = Inr uname" "read_file d uname = Inr ucol"
    and uvn: "UVnorm (genfromtxt ucol) = Inr uvn" "savetxt uvn = Inr vals"
    and w: "write_file d ''UV.csv'' vals = Inr d1"
    and n: "normalizer (genfromtxt ccol) (cafiles conv) d1 None = Inr (d2, prev)"
    and sp: "scan_and_plot mypath d2 prev = Inr r"
    unfolding script_def bind_err_Inr by (auto simp: bind_err_Inr)
  have conv_eq: "conv = map fst (plain_files d)"
    using conv by (auto simp: convertedfiles_def split: if_splits)
  have uvn_eq: "uvn = Arr1 vals" using uvn(2) by (cases uvn) auto
  from sp obtain mx mn ps where
    rs: "range_scanner (map snd (csvz mypath d2)) prev = Inr (mx, mn)"
    and dl: "drawer_loop d2 mn mx (map fst (csvz mypath d2)) = Inr ps"
    and r: "r = \<lparr>final_dir = d2, csv_paths = map fst (csvz mypath d2), maxvalue = mx, minvalue = mn, plots = ps\<rparr>"
    by (auto simp: scan_and_plot_def Let_def bind_err_Inr)
  have rd1: "read_file d1 ''UV.csv'' = Inr vals" using read_after_write_same [OF w] .
  have rd2: "read_file d2 ''UV.csv'' = Inr vals"
    using normalizer_keeps [OF n, of "''UV.csv''"] cafiles_no_UV rd1 by auto
  have mem: "(path_join mypath ''UV.csv'', vals) \<in> set (csvz mypath d2)"
    using csvz_top [OF rd2] by (simp add: endswith_def)
  then have pmem: "path_join mypath ''UV.csv'' \<in> set (map fst (csvz mypath d2))" by force
  have bounds: "\<forall>f\<in>set (map snd (csvz mypath d2)). \<exists>m. np_max (genfromtxt f) = Inr m \<and> \<not> np_less mx m"
    using range_scanner_bounds [OF rs] .
  from mem have "vals \<in> set (map snd (csvz mypath d2))" by force
  with bounds obtain m where m: "np_max (genfromtxt vals) = Inr m" "\<not> np_less mx m" by blast
  obtain p where p: "p \<in> set ps" "drawer d2 mn (path_join mypath ''UV.csv'') mx = Inr p"
    using drawer_loop_each [OF dl pmem] by blast
  obtain col where col: "read_file d2 ''UV.csv'' = Inr col"
    and fin: "is_finite mn" "is_finite mx"
    and p_eq: "p = \<lparr>title = ''UV.csv'', ylim = (mn, mx), xlim = (0, length col),
                   y_range_high = np_sub mx (Fin 1),
                   image_name = py_slice ''UV.csv'' 0 (- 4) @ ''.png''\<rparr>"
    using drawer_top [OF p(2)] by auto
  have "col = vals" using col rd2 by simp
  moreover have "py_slice ''UV.csv'' 0 (- 4) = ''UV''" by (simp add: py_slice_def)
  ultimately have plot: "\<lparr>title = ''UV.csv'', ylim = (mn, mx), xlim = (0, length vals),
                 y_range_high = np_sub mx (Fin 1), image_name = ''UV.png''\<rparr> \<in> set ps"
    using p(1) p_eq by simp
  have first: "\<exists>u ucol vals m.
            index0 (UVfile (map fst (plain_files d))) = Inr u \<and> read_file d u = Inr ucol
            \<and> UVnorm (genfromtxt ucol) = Inr (Arr1 vals)
            \<and> read_file (final_dir r) ''UV.csv'' = Inr vals
            \<and> (path_join mypath ''UV.csv'', vals) \<in> set (csvz mypath (final_dir r))
            \<and> path_join mypath ''UV.csv'' \<in> set (csv_paths r)
            \<and> np_max (genfromtxt vals) = Inr m \<and> \<not> np_less (maxvalue r) m
            \<and> is_finite (minvalue r) \<and> is_finite (maxvalue r)
            \<and> \<lparr>title = ''UV.csv'', ylim = (minvalue r, maxvalue r), xlim = (0, length vals),
                 y_range_high = np_sub (maxvalue r) (Fin 1), image_name = ''UV.png''\<rparr> \<in> set (plots r)"
    using u uvn(1) rd2 mem pmem m fin plot unfolding conv_eq uvn_eq r by auto
  have second: "csv_paths r = map fst (csvz mypath (final_dir r))" by (simp add: r)
  have third: "\<forall>(path, col)\<in>set (csvz mypath (final_dir r)).
               \<exists>m. np_max (genfromtxt col) = Inr m \<and> \<not> np_less (maxvalue r) m"
    using bounds by (force simp: r)
  have fourth: "\<forall>path\<in>set (csv_paths r).
               \<exists>p\<in>set (plots r). drawer (final_dir r) (minvalue r) path (maxvalue r) = Inr p"
    using drawer_loop_each [OF dl] by (simp add: r)
  from first second third fourth show ?thesis by blast
qed

lemma UV_scanned_and_plotted_example:
  "script ''/where/your/files/are/''
     (Dir [(''control_dt_1.txt'', [Fin 1, Fin 1]), (''UV_dt_1.txt'', [Fin 0, Fin 5, Fin 10]),
           (''n_dt_2_Values.txt'', [Fin 1, Fin 1])] [])
   = Inr \<lparr>final_dir =
        Dir [(''control_dt_1.txt'', [Fin 1, Fin 1]),
             (''UV_dt_1.txt'', [Fin 0, Fin 5, Fin 10]),
             (''n_dt_2_Values.txt'', [Fin 1, Fin 1]),
             (''UV.csv'', [Fin 0, Fin (1 / 2), Fin 1]),
             (''2_.csv'', [Fin 0, Fin 0])]
         [],
        csv_paths =
          [''/where/your/files/are/UV.csv'',
           ''/where/your/files/are/2_.csv''],
        maxvalue = Fin (11 / 10), minvalue = Fin 0,
        plots =
          [\<lparr>title = ''UV.csv'', ylim = (Fin 0, Fin (11 / 10)),
              xlim = (0, 3), y_range_high = Fin (1 / 10),
              image_name = ''UV.png''\<rparr>,
           \<lparr>title = ''2_.csv'', ylim = (Fin 0, Fin (11 / 10)),
              xlim = (0, 2), y_range_high = Fin (1 / 10),
              image_name = ''2_.png''\<rparr>]\<rparr>
   \<and> np_max (genfromtxt [Fin 0, Fin (1 / 2), Fin 1]) = Inr (Fin 1)
   \<and> np_max (genfromtxt [Fin 0, Fin 0]) = Inr (Fin 0)"
proof -
  let ?d = "Dir [(''control_dt_1.txt'', [Fin 1, Fin 1]), (''UV_dt_1.txt'', [Fin 0, Fin 5, Fin 10]),
           (''n_dt_2_Values.txt'', [Fin 1, Fin 1])] []"
  let ?r = "\<lparr>final_dir =
        Dir [(''control_dt_1.txt'', [Fin 1, Fin 1]),
             (''UV_dt_1.txt'', [Fin 0, Fin 5, Fin 10]),
             (''n_dt_2_Values.txt'', [Fin 1, Fin 1]),
             (''UV.csv'', [Fin 0, Fin (1 / 2), Fin 1]),
             (''2_.csv'', [Fin 0, Fin 0])]
         [],
        csv_paths =
          [''/where/your/files/are/UV.csv'',
           ''/where/your/files/are/2_.csv''],
        maxvalue = Fin (11 / 10), minvalue = Fin 0,
        plots =
          [\<lparr>title = ''UV.csv'', ylim = (Fin 0, Fin (11 / 10)),
              xlim = (0, 3), y_range_high = Fin (1 / 10),
              image_name = ''UV.png''\<rparr>,
           \<lparr>title = ''2_.csv'', ylim = (Fin 0, Fin (11 / 10)),
              xlim = (0, 2), y_range_high = Fin (1 / 10),
              image_name = ''2_.png''\<rparr>]\<rparr>"
  have run: "script ''/where/your/files/are/'' ?d = Inr ?r"
    by (simp add: eval_defs)
  have "\<forall>(path, col)\<in>set (csvz ''/where/your/files/are/'' (final_dir ?r)).
               \<exists>m. np_max (genfromtxt col) = Inr m \<and> \<not> np_less (maxvalue ?r) m"
    using UV_scanned_and_plotted [OF run] by blast
  moreover have "np_max (genfromtxt [Fin 0, Fin (1 / 2), Fin 1]) = Inr (Fin 1)"
    and "np_max (genfromtxt [Fin 0, Fin 0]) = Inr (Fin 0)"
    by (simp_all add: genfromtxt_def np_max2_def)
  ultimately show ?thesis using run by simp
qed

text \<open>
  A run whose range is not finite stops in the plotter: with a zero in the control the
  trace holds an infinity, the final maximum is plus infinity, and setting the limits of
  the axes raises ValueError.
\<close>

lemma script_range_not_finite:
  "script ''/data/''
     (Dir [(''control_dt_1.txt'', [Fin 0, Fin 1]), (''UV_dt_1.txt'', [Fin 0, Fin 5, Fin 10]),
           (''n_dt_2_Values.txt'', [Fin 1, Fin 1])] [])
     = Inl ValueError
   \<and> range_scanner [[Fin 0, Fin (1 / 2), Fin 1], [PInf, Fin 0]] (Some (Arr1 [PInf, Fin 0]))
     = Inr (PInf, Fin 0)"
  by (simp add: eval_defs)

text \<open>
  Claim C10 says that the range scanner and the plotter process every csv file found
  under the working directory. The range scanner reads each file by the path found
  (line 59); the plotter strips the directory from that path and reads the file of this
  name in the working directory itself (lines 68 and 69). With a file
  \<^verbatim>\<open>old/a.csv\<close> in a subdirectory, the range scanner reads it (it decides the
  maximum, 7.7), and the plotter, called with its path, looks for \<^verbatim>\<open>a.csv\<close> in the
  working directory and stops with IOError. With a file \<^verbatim>\<open>old/UV.csv\<close> of four
  values in a subdirectory, the run ends, the file decides the maximum (8.8), and the
  plotter draws the \<^verbatim>\<open>UV.csv\<close> of the working directory (three values) a second
  time in its place.
\<close>

theorem C10_nested_csv_not_plotted:
  "script ''/data/''
     (Dir [(''control_dt_1.txt'', [Fin 1, Fin 1]), (''UV_dt_1.txt'', [Fin 0, Fin 5, Fin 10]),
           (''n_dt_2_Values.txt'', [Fin 1, Fin 1])]
          [(''old'', Dir [(''a.csv'', [Fin 5, Fin 6, Fin 7])] [])])
     = Inl IOError
   \<and> csvz ''/data/''
        (Dir [(''control_dt_1.txt'', [Fin 1, Fin 1]), (''UV_dt_1.txt'', [Fin 0, Fin 5, Fin 10]),
              (''n_dt_2_Values.txt'', [Fin 1, Fin 1]),
              (''UV.csv'', [Fin 0, Fin (1 / 2), Fin 1]), (''2_.csv'', [Fin 0, Fin 0])]
             [(''old'', Dir [(''a.csv'', [Fin 5, Fin 6, Fin 7])] [])])
     = [(''/data/UV.csv'', [Fin 0, Fin (1 / 2), Fin 1]), (''/data/2_.csv'', [Fin 0, Fin 0]),
        (''/data/old/a.csv'', [Fin 5, Fin 6, Fin 7])]
   \<and> range_scanner [[Fin 0, Fin (1 / 2), Fin 1], [Fin 0, Fin 0], [Fin 5, Fin 6, Fin 7]]
        (Some (Arr1 [Fin 0, Fin 0]))
     = Inr (Fin (77 / 10), Fin 0)
   \<and> drawer
        (Dir [(''control_dt_1.txt'', [Fin 1, Fin 1]), (''UV_dt_1.txt'', [Fin 0, Fin 5, Fin 10]),
              (''n_dt_2_Values.txt'', [Fin 1, Fin 1]),
              (''UV.csv'', [Fin 0, Fin (1 / 2), Fin 1]), (''2_.csv'', [Fin 0, Fin 0])]
             [(''old'', Dir [(''a.csv'', [Fin 5, Fin 6, Fin 7])] [])])
        (Fin 0) ''/data/old/a.csv'' (Fin (77 / 10))
     = Inl IOError
   \<and> script ''/data/''
        (Dir [(''control_dt_1.txt'', [Fin 1, Fin 1]), (''UV_dt_1.txt'', [Fin 0, Fin 5, Fin 10]),
              (''n_dt_2_Values.txt'', [Fin 1, Fin 1])]
             [(''old'', Dir [(''UV.csv'', [Fin 5, Fin 6, Fin 7, Fin 8])] [])])
     = Inr \<lparr>final_dir =
              Dir [(''control_dt_1.txt'', [Fin 1, Fin 1]), (''UV_dt_1.txt'', [Fin 0, Fin 5, Fin 10]),
                   (''n_dt_2_Values.txt'', [Fin 1, Fin 1]),
                   (''UV.csv'', [Fin 0, Fin (1 / 2), Fin 1]), (''2_.csv'', [Fin 0, Fin 0])]
                  [(''old'', Dir [(''UV.csv'', [Fin 5, Fin 6, Fin 7, Fin 8])] [])],
             csv_paths = [''/data/UV.csv'', ''/data/2_.csv'', ''/data/old/UV.csv''],
             maxvalue = Fin (88 / 10), minvalue = Fin 0,
             plots =
               [\<lparr>title = ''UV.csv'', ylim = (Fin 0, Fin (88 / 10)), xlim = (0, 3),
                   y_range_high = Fin (78 / 10), image_name = ''UV.png''\<rparr>,
                \<lparr>title = ''2_.csv'', ylim = (Fin 0, Fin (88 / 10)), xlim = (0, 2),
                   y_range_high = Fin (78 / 10), image_name = ''2_.png''\<rparr>,
                \<lparr>title = ''UV.csv'', ylim = (Fin 0, Fin (88 / 10)), xlim = (0, 3),
                   y_range_high = Fin (78 / 10), image_name = ''UV.png''\<rparr>]\<rparr>"
  by (simp add: eval_defs)

end
